theory Spec2Isabelle
  imports Main
begin

section \<open>The plugin object and the host it runs in\<close>

text \<open>
  The plugin of \<^verbatim>\<open>src/plugin.js\<close> is one object (the class \<^verbatim>\<open>Xr\<close>) whose methods
  run to completion one at a time on the event loop of the browser. The methods mutate
  the fields of the object and call the host: the player, the window, the renderer, the
  immersive session, the console. A method is a function on the record \<open>xr\<close>, which holds
  the fields of the plugin together with what the host remembers about it (the listeners
  it registered, the frames it asked for, the promises it waits on). Every call on the
  host is appended to \<open>effects\<close>, in the order the source makes it.
\<close>

text \<open>The two frame clocks: the host player's and an immersive session's.\<close>

datatype clock = PlayerClock | SessionClock nat

text \<open>The methods the constructor binds and hands out as callbacks.\<close>

datatype handler = Init | HandleResize | HandleVrDisplayActivate | HandleVrDisplayDeactivate | Animate

datatype target = Window | Player

datatype effect =
    ConsoleLog string
  | Trigger string
  | SetInitialized bool
  | ScheduleFrame clock nat handler
  | CancelFrame clock nat
  | AddListener target string handler
  | RemoveListener target string handler
  | AddSessionEndListener nat
  | Call string
  | IsSessionSupported
  | RequestSession
  | RequestReferenceSpace nat
  | EndSession nat
  | SetSession "nat option"

text \<open>
  What a method can throw, and what the event loop reports when a promise rejects and
  nothing handles the rejection.
\<close>

datatype error = TypeError | UnhandledRejection

record xr =
  initialized :: bool
  xrSupported :: bool
  xrActive :: bool
  currentSession :: "nat option"
  xrReferenceSpace :: "nat option"
  xrPose :: "nat option"
  animationFrameId :: "nat option"
  controls3d :: "bool option"
  canvasPlayerControls :: bool
  camera :: bool
  videoTexture :: "bool option"
  renderer :: bool
  rendererSession :: "nat option"
  renderedCanvas :: "bool option"
  navigatorXr :: bool
  videoHidden :: bool
  playerChildren :: "string list"
  controlBarChildren :: "string list"
  windowListeners :: "(string \<times> handler) list"
  playerListeners :: "(string \<times> handler) list"
  sessionListeners :: "nat list"
  pendingFrames :: "(clock \<times> nat \<times> handler) list"
  nextHandle :: nat
  probes :: nat
  sessionRequests :: nat
  referenceSpaceRequests :: nat
  endRequests :: nat
  effects :: "effect list"
  uncaught :: "error list"

text \<open>
  The fields, as the source uses them (a name of the source that ends in an underscore
  is written without it: \<^verbatim>\<open>initialized_\<close> is \<open>initialized\<close>, \<^verbatim>\<open>animate_\<close> is \<open>animate\<close>):
  \<^item> \<open>initialized\<close>, \<open>xrSupported\<close>, \<open>xrActive\<close>: the three flags; \<^verbatim>\<open>undefined\<close> is \<open>False\<close>,
    since the source only tests them for truth;
  \<^item> \<open>currentSession\<close>, \<open>xrReferenceSpace\<close>, \<open>xrPose\<close>: \<open>None\<close> is \<^verbatim>\<open>null\<close> or
    \<^verbatim>\<open>undefined\<close>, \<open>Some k\<close> the session (reference space) the host named \<open>k\<close>; the pose is
    kept as the reference space it was sampled in;
  \<^item> \<open>animationFrameId\<close>: the last handle a clock returned, \<open>None\<close> before the first;
  \<^item> \<open>controls3d\<close>: \<open>None\<close> is \<^verbatim>\<open>null\<close>, \<open>Some b\<close> the orbit controls, enabled when \<open>b\<close>;
  \<^item> \<open>canvasPlayerControls\<close>, \<open>camera\<close>, \<open>renderer\<close>: whether the object exists (the scene,
    the sphere and the camera vector are created with the camera and never cleared);
  \<^item> \<open>videoTexture\<close>: \<open>Some b\<close> the texture, with \<^verbatim>\<open>needsUpdate\<close> equal to \<open>b\<close>;
  \<^item> \<open>rendererSession\<close>: the session installed by \<^verbatim>\<open>renderer.xr.setSession\<close>;
  \<^item> \<open>renderedCanvas\<close>: \<open>None\<close> before the first canvas, \<open>Some b\<close> the canvas, attached to
    the document when \<open>b\<close>;
  \<^item> \<open>navigatorXr\<close>: whether \<^verbatim>\<open>window.navigator.xr\<close> is there;
  \<^item> \<open>videoHidden\<close>: the video element's style set by init (\<^verbatim>\<open>zIndex -1, opacity 0\<close>);
  \<^item> \<open>playerChildren\<close>, \<open>controlBarChildren\<close>: the named children of the player and of
    its control bar;
  \<^item> \<open>windowListeners\<close>, \<open>playerListeners\<close>, \<open>sessionListeners\<close>: the subscriptions on the
    window, on the player, and the sessions whose \<^verbatim>\<open>end\<close> event the plugin listens to;
  \<^item> \<open>pendingFrames\<close>: the callbacks waiting on a clock, with their handles; \<open>nextHandle\<close>
    is the next handle a clock gives out (handles are positive and never reused);
  \<^item> \<open>probes\<close>, \<open>sessionRequests\<close>, \<open>referenceSpaceRequests\<close>, \<open>endRequests\<close>: how many
    promises of each kind the plugin waits on (their continuations capture only the plugin
    object, so they need not be told apart);
  \<^item> \<open>effects\<close>: the calls on the host so far, with each write to \<open>initialized\<close>;
  \<^item> \<open>uncaught\<close>: the exceptions that left a method of the plugin, and the rejections
    nothing handled.
\<close>

text \<open>
  A method returns \<open>Inr\<close> its result, or \<open>Inl\<close> the exception it threw with the state at the
  throw: what a JavaScript method changed before it throws stays changed.
\<close>

type_synonym 'a result = "(error \<times> xr) + 'a"

definition andThen :: "'a result \<Rightarrow> ('a \<Rightarrow> 'b result) \<Rightarrow> 'b result" where
  "andThen r f = (case r of Inl e \<Rightarrow> Inl e | Inr a \<Rightarrow> f a)"

definition threw :: "'a result \<Rightarrow> bool" where
  "threw r = (case r of Inl _ \<Rightarrow> True | Inr _ \<Rightarrow> False)"

definition emit :: "effect \<Rightarrow> xr \<Rightarrow> xr" where
  "emit e s = s\<lparr>effects := effects s @ [e]\<rparr>"

subsection \<open>The clocks\<close>

text \<open>
  A clock takes a callback and returns a fresh handle; cancelling a handle on a clock
  removes the callback that waits under it there, if any.
\<close>

definition schedule :: "clock \<Rightarrow> handler \<Rightarrow> xr \<Rightarrow> nat \<times> xr" where
  "schedule c fn s =
     (nextHandle s,
      emit (ScheduleFrame c (nextHandle s) fn)
        (s\<lparr>pendingFrames := pendingFrames s @ [(c, nextHandle s, fn)],
           nextHandle := Suc (nextHandle s)\<rparr>))"

definition unschedule :: "clock \<Rightarrow> nat \<Rightarrow> xr \<Rightarrow> xr" where
  "unschedule c h s =
     emit (CancelFrame c h)
       (s\<lparr>pendingFrames := filter (\<lambda>(c', h', _). \<not> (c' = c \<and> h' = h)) (pendingFrames s)\<rparr>)"

subsection \<open>requestAnimationFrame, cancelAnimationFrame (lines 105 to 117)\<close>

text \<open>
  \<^verbatim>\<open>this.currentSession.requestAnimationFrame\<close> on a \<^verbatim>\<open>null\<close> session is a TypeError.
\<close>

definition requestAnimationFrame :: "handler \<Rightarrow> xr \<Rightarrow> (nat \<times> xr) result" where
  "requestAnimationFrame fn s =
     (if xrActive s then
        (case currentSession s of
           None \<Rightarrow> Inl (TypeError, s)
         | Some k \<Rightarrow> Inr (schedule (SessionClock k) fn s))
      else Inr (schedule PlayerClock fn s))"

definition cancelAnimationFrame :: "nat \<Rightarrow> xr \<Rightarrow> xr result" where
  "cancelAnimationFrame h s =
     (if xrActive s then
        (case currentSession s of
           None \<Rightarrow> Inl (TypeError, s)
         | Some k \<Rightarrow> Inr (unschedule (SessionClock k) h s))
      else Inr (unschedule PlayerClock h s))"

text \<open>
  The statement both handlers and reset share:
  \<^verbatim>\<open>if (this.animationFrameId_) this.cancelAnimationFrame(this.animationFrameId_)\<close>.
  The test is JavaScript truth: \<^verbatim>\<open>undefined\<close> and \<open>0\<close> are false.
\<close>

definition cancelPending :: "xr \<Rightarrow> xr result" where
  "cancelPending s =
     (case animationFrameId s of
        None \<Rightarrow> Inr s
      | Some h \<Rightarrow> if h \<noteq> 0 then cancelAnimationFrame h s else Inr s)"

text \<open>
  \<^verbatim>\<open>this.animationFrameId_ = this.requestAnimationFrame(this.animate_)\<close>: the assignment
  happens only when the call returns.
\<close>

definition scheduleAnimate :: "xr \<Rightarrow> xr result" where
  "scheduleAnimate s =
     andThen (requestAnimationFrame Animate s)
       (\<lambda>(h, s'). Inr (s'\<lparr>animationFrameId := Some h\<rparr>))"

definition trigger :: "string \<Rightarrow> xr \<Rightarrow> xr" where
  "trigger name s = emit (Trigger name) s"

definition consoleLog :: "string \<Rightarrow> xr \<Rightarrow> xr" where
  "consoleLog msg s = emit (ConsoleLog msg) s"

subsection \<open>The activate handler and its two continuations (lines 54 to 81)\<close>

text \<open>
  The handler returns once the session is requested. What follows the request runs later,
  when the host settles the promise: \<open>sessionGranted\<close> is the callback of lines 64 to 80,
  \<open>referenceSpaceGranted\<close> the callback of lines 74 to 79. Neither promise has a callback
  for a rejection. \<^verbatim>\<open>this.controls3d.disable()\<close> on \<^verbatim>\<open>null\<close> controls and
  \<^verbatim>\<open>navigator.xr.requestSession\<close> with no \<^verbatim>\<open>navigator.xr\<close> are TypeErrors.
\<close>

definition handleVrDisplayActivate :: "xr \<Rightarrow> xr result" where
  "handleVrDisplayActivate s =
     (if \<not> xrSupported s then Inr s
      else
        andThen (cancelPending s) (\<lambda>s1.
          (case controls3d s1 of
             None \<Rightarrow> Inl (TypeError, s1)
           | Some _ \<Rightarrow>
               (let s2 = emit (Call ''controls3d.disable'') (s1\<lparr>controls3d := Some False\<rparr>)
                in if \<not> navigatorXr s2 then Inl (TypeError, s2)
                   else Inr (emit RequestSession
                              (s2\<lparr>sessionRequests := Suc (sessionRequests s2)\<rparr>))))))"

definition sessionGranted :: "nat \<Rightarrow> xr \<Rightarrow> xr result" where
  "sessionGranted k s =
     (let s1 = emit (AddSessionEndListener k)
                 (s\<lparr>sessionListeners := sessionListeners s @ [k]\<rparr>)
      in if \<not> renderer s1 then Inl (TypeError, s1)
         else
           Inr (emit (RequestReferenceSpace k)
                 ((emit (SetSession (Some k)) (s1\<lparr>rendererSession := Some k\<rparr>))
                    \<lparr>currentSession := Some k,
                      referenceSpaceRequests := Suc (referenceSpaceRequests s1)\<rparr>)))"

definition referenceSpaceGranted :: "nat \<Rightarrow> xr \<Rightarrow> xr result" where
  "referenceSpaceGranted r s =
     scheduleAnimate
       (trigger ''xrSessionActivated'' (s\<lparr>xrReferenceSpace := Some r, xrActive := True\<rparr>))"

subsection \<open>The deactivate handler and its continuation (lines 83 to 103)\<close>

text \<open>
  \<^verbatim>\<open>this.currentSession.end()\<close> on a \<^verbatim>\<open>null\<close> session is a TypeError. The promise of
  \<^verbatim>\<open>end()\<close> settles later: \<open>endSettled None\<close> when it is fulfilled, \<open>endSettled (Some n)\<close>
  when it is rejected with an error named \<open>n\<close>. A rejection goes through the callback of
  \<^verbatim>\<open>catch\<close> (lines 91 to 95), which returns in both its branches, so the callback of
  \<^verbatim>\<open>then\<close> (lines 95 to 102) runs in every case.
\<close>

definition handleVrDisplayDeactivate :: "xr \<Rightarrow> xr result" where
  "handleVrDisplayDeactivate s =
     (if \<not> xrSupported s then Inr s
      else
        andThen (cancelPending s) (\<lambda>s1.
          (case currentSession s1 of
             None \<Rightarrow> Inl (TypeError, s1)
           | Some k \<Rightarrow> Inr (emit (EndSession k) (s1\<lparr>endRequests := Suc (endRequests s1)\<rparr>)))))"

definition endCaught :: "string \<Rightarrow> xr \<Rightarrow> xr" where
  "endCaught name s = (if name = ''InvalidStateError'' then s else consoleLog name s)"

definition endThen :: "xr \<Rightarrow> xr result" where
  "endThen s =
     (let s1 = s\<lparr>xrActive := False, currentSession := None\<rparr>
      in if \<not> renderer s1 then Inl (TypeError, s1)
         else
           (let s2 = emit (SetSession None) (s1\<lparr>rendererSession := None\<rparr>)
            in case controls3d s2 of
                 None \<Rightarrow> Inl (TypeError, s2)
               | Some _ \<Rightarrow>
                   scheduleAnimate
                     (trigger ''xrSessionDeactivated''
                       (emit (Call ''controls3d.enable'') (s2\<lparr>controls3d := Some True\<rparr>)))))"

definition endSettled :: "string option \<Rightarrow> xr \<Rightarrow> xr result" where
  "endSettled outcome s =
     endThen (case outcome of None \<Rightarrow> s | Some name \<Rightarrow> endCaught name s)"

subsection \<open>The render step (lines 127 to 149)\<close>

text \<open>
  \<open>animate enough xrFrame\<close>: \<open>enough\<close> tells whether the video element reports
  \<^verbatim>\<open>HAVE_ENOUGH_DATA\<close> at this frame, \<open>xrFrame\<close> whether the clock passed a frame object (the
  session's clock does, the player's clock calls back with no argument).
\<close>

definition animate :: "bool \<Rightarrow> bool \<Rightarrow> xr \<Rightarrow> xr result" where
  "animate enough xrFrame s =
     (if \<not> initialized s then Inr s
      else
        (let s1 = (if enough
                   then (case videoTexture s of
                           None \<Rightarrow> s
                         | Some _ \<Rightarrow> s\<lparr>videoTexture := Some True\<rparr>)
                   else s)
         in if \<not> camera s1 then Inl (TypeError, s1)
            else
              andThen (scheduleAnimate (emit (Call ''camera.getWorldDirection'') s1)) (\<lambda>s2.
              andThen
                (if \<not> xrActive s2
                 then (case controls3d s2 of
                         None \<Rightarrow> Inl (TypeError, s2)
                       | Some _ \<Rightarrow> Inr (emit (Call ''controls3d.update'') s2))
                 else Inr s2) (\<lambda>s3.
              (let s4 = (if xrActive s3 \<and> xrFrame
                         then trigger ''xrCameraUpdate''
                                (emit (Call ''xrFrame.getViewerPose'')
                                  (s3\<lparr>xrPose := xrReferenceSpace s3\<rparr>))
                         else s3)
               in if \<not> renderer s4 then Inl (TypeError, s4)
                  else Inr (emit (Call ''renderer.render'') s4))))))"

subsection \<open>Subscriptions and children\<close>

text \<open>
  The window keeps one subscription per event type and callback (adding the same pair
  again changes nothing); the player's \<^verbatim>\<open>on\<close> keeps every subscription it is given.
\<close>

definition addEventListener :: "string \<Rightarrow> handler \<Rightarrow> xr \<Rightarrow> xr" where
  "addEventListener ty fn s =
     emit (AddListener Window ty fn)
       (if (ty, fn) \<in> set (windowListeners s) then s
        else s\<lparr>windowListeners := windowListeners s @ [(ty, fn)]\<rparr>)"

definition removeEventListener :: "string \<Rightarrow> handler \<Rightarrow> xr \<Rightarrow> xr" where
  "removeEventListener ty fn s =
     emit (RemoveListener Window ty fn)
       (s\<lparr>windowListeners := removeAll (ty, fn) (windowListeners s)\<rparr>)"

definition playerOn :: "string \<Rightarrow> handler \<Rightarrow> xr \<Rightarrow> xr" where
  "playerOn ty fn s =
     emit (AddListener Player ty fn) (s\<lparr>playerListeners := playerListeners s @ [(ty, fn)]\<rparr>)"

text \<open>
  \<^verbatim>\<open>player.addChild(name, {}, index)\<close> and \<^verbatim>\<open>player.removeChild(name)\<close>: the position of a
  child among its siblings is not kept.
\<close>

definition playerAddChild :: "string \<Rightarrow> xr \<Rightarrow> xr" where
  "playerAddChild name s =
     emit (Call (''player.addChild '' @ name)) (s\<lparr>playerChildren := playerChildren s @ [name]\<rparr>)"

definition playerRemoveChild :: "string \<Rightarrow> xr \<Rightarrow> xr" where
  "playerRemoveChild name s =
     emit (Call (''player.removeChild '' @ name))
       (s\<lparr>playerChildren := remove1 name (playerChildren s)\<rparr>)"

definition controlBarAddChild :: "string \<Rightarrow> xr \<Rightarrow> xr" where
  "controlBarAddChild name s =
     emit (Call (''controlBar.addChild '' @ name))
       (s\<lparr>controlBarChildren := controlBarChildren s @ [name]\<rparr>)"

definition controlBarRemoveChild :: "string \<Rightarrow> xr \<Rightarrow> xr" where
  "controlBarRemoveChild name s =
     emit (Call (''controlBar.removeChild '' @ name))
       (s\<lparr>controlBarChildren := remove1 name (controlBarChildren s)\<rparr>)"

subsection \<open>reset (lines 278 to 328)\<close>

text \<open>
  The teardown in the order of the source. \<open>resetControls\<close> is lines 283 to 291,
  \<open>resetListeners\<close> lines 293 to 296, \<open>resetChildren\<close> lines 298 to 310, \<open>resetVideoStyle\<close> lines
  313 to 316, \<open>resetCanvas\<close> lines 319 to 321. Removing a canvas that has no parent node
  is a TypeError (\<^verbatim>\<open>this.renderedCanvas.parentNode\<close> is \<^verbatim>\<open>null\<close> then).
  \<^verbatim>\<open>dispose()\<close> (lines 330 to 333) is reset followed by the dispose of the player's plugin
  base class, which is not part of this repository; it has no definition here.
\<close>

definition resetControls :: "xr \<Rightarrow> xr" where
  "resetControls s =
     (let s1 = (case controls3d s of
                  None \<Rightarrow> s
                | Some _ \<Rightarrow> (emit (Call ''controls3d.dispose'') s)\<lparr>controls3d := None\<rparr>)
      in if canvasPlayerControls s1
         then (emit (Call ''canvasPlayerControls.dispose'') s1)\<lparr>canvasPlayerControls := False\<rparr>
         else s1)"

definition resetListeners :: "xr \<Rightarrow> xr" where
  "resetListeners s =
     removeEventListener ''vrdisplaydeactivate'' HandleVrDisplayDeactivate
       (removeEventListener ''vrdisplayactivate'' HandleVrDisplayActivate
         (removeEventListener ''vrdisplaypresentchange'' HandleResize
           (removeEventListener ''resize'' HandleResize s)))"

definition resetChildren :: "xr \<Rightarrow> xr" where
  "resetChildren s =
     (let s1 = (if ''BigPlayButton'' \<notin> set (playerChildren s)
                then playerAddChild ''BigPlayButton'' s else s);
          s2 = (if ''BigVrPlayButton'' \<in> set (playerChildren s1)
                then playerRemoveChild ''BigVrPlayButton'' s1 else s1)
      in if ''CardboardButton'' \<in> set (playerChildren s2)
         then controlBarRemoveChild ''CardboardButton'' s2 else s2)"

definition resetVideoStyle :: "xr \<Rightarrow> xr" where
  "resetVideoStyle s = emit (Call ''videoEl.style reset'') (s\<lparr>videoHidden := False\<rparr>)"

definition resetCanvas :: "xr \<Rightarrow> xr result" where
  "resetCanvas s =
     (case renderedCanvas s of
        None \<Rightarrow> Inr s
      | Some attached \<Rightarrow>
          if attached
          then Inr (emit (Call ''parentNode.removeChild canvas'') (s\<lparr>renderedCanvas := Some False\<rparr>))
          else Inl (TypeError, s))"

definition setInitialized :: "bool \<Rightarrow> xr \<Rightarrow> xr" where
  "setInitialized b s = emit (SetInitialized b) (s\<lparr>initialized := b\<rparr>)"

definition reset :: "xr \<Rightarrow> xr result" where
  "reset s =
     (if \<not> initialized s then Inr s
      else
        andThen (resetCanvas (resetVideoStyle (resetChildren (resetListeners (resetControls s)))))
          (\<lambda>s1. andThen (cancelPending s1) (\<lambda>s2. Inr (setInitialized False s2))))"

subsection \<open>init and the capability probe (lines 160 to 272)\<close>

text \<open>
  Modelled from the spec: the constructor of the orbit controls is in
  \<^verbatim>\<open>orbit-orientation-controls.js\<close>, which is not among the sources; by the spec the
  controls are "disabled (not destroyed) while immersive session is active, re-enabled on
  deactivation", so new controls are enabled.
\<close>

definition newOrbitOrientationControls :: "bool option" where
  "newOrbitOrientationControls = Some True"

text \<open>
  \<open>initResources\<close> is lines 163 to 232: the camera, the scene, the texture, the sphere, the
  play button swap, the renderer, the canvas, the video style, \<^verbatim>\<open>xrActive = false\<close>, and the
  controls when there are none.
\<close>

definition initResources :: "xr \<Rightarrow> xr" where
  "initResources s =
     (let s1 = s\<lparr>xrSupported := False, camera := True, videoTexture := Some False\<rparr>;
          s2 = playerAddChild ''BigVrPlayButton'' (playerRemoveChild ''BigPlayButton'' s1);
          s3 = (emit (Call ''new WebGLRenderer'') s2)\<lparr>renderer := True, rendererSession := None\<rparr>;
          s4 = (emit (Call ''insertBefore canvas'') s3)\<lparr>renderedCanvas := Some True\<rparr>;
          s5 = (emit (Call ''videoEl.style hide'') s4)\<lparr>videoHidden := True\<rparr>;
          s6 = s5\<lparr>xrActive := False\<rparr>
      in case controls3d s6 of
           None \<Rightarrow> (emit (Call ''new OrbitOrientationControls'') s6)
                      \<lparr>controls3d := newOrbitOrientationControls, canvasPlayerControls := True\<rparr>
         | Some _ \<Rightarrow> s6)"

text \<open>
  \<open>initProbe\<close> is lines 234 to 249. The probe's promise settles later:
  \<open>sessionSupportResolved\<close> is the callback of lines 238 to 246, and a rejection has no
  callback.
\<close>

definition initProbe :: "xr \<Rightarrow> xr" where
  "initProbe s =
     (if navigatorXr s
      then (emit IsSessionSupported (emit (Call ''renderer.xr.enabled = true'') s))
             \<lparr>probes := Suc (probes s)\<rparr>
      else consoleLog ''web xr not available'' s)"

definition addCardboardButton :: "xr \<Rightarrow> xr" where
  "addCardboardButton s =
     (if ''CardboardButton'' \<notin> set (controlBarChildren s)
      then controlBarAddChild ''CardboardButton'' s else s)"

definition sessionSupportResolved :: "bool \<Rightarrow> xr \<Rightarrow> xr" where
  "sessionSupportResolved supported s =
     (if supported
      then consoleLog ''webxr session supported'' (addCardboardButton (s\<lparr>xrSupported := True\<rparr>))
      else consoleLog ''web xr device not found, using orbit controls'' s)"

definition completeInitialization :: "xr \<Rightarrow> xr" where
  "completeInitialization s = trigger ''initialized'' (setInitialized True s)"

text \<open>\<open>initWire\<close> is lines 255 to 259.\<close>

definition initWire :: "xr \<Rightarrow> xr" where
  "initWire s =
     addEventListener ''vrdisplaydeactivate'' HandleVrDisplayDeactivate
       (addEventListener ''vrdisplayactivate'' HandleVrDisplayActivate
         (addEventListener ''resize'' HandleResize
           (addEventListener ''vrdisplaypresentchange'' HandleResize
             (playerOn ''fullscreenchange'' HandleResize s))))"

text \<open>
  Line 251 calls \<^verbatim>\<open>self.completeInitialization()\<close>, and \<^verbatim>\<open>self\<close> is declared by
  \<^verbatim>\<open>var self = this\<close> inside the branch of line 234. The declaration is hoisted to the
  function, the assignment is not: when \<^verbatim>\<open>window.navigator.xr\<close> is missing, \<^verbatim>\<open>self\<close> is
  \<^verbatim>\<open>undefined\<close> at line 251 and the call is a TypeError.
\<close>

definition init :: "xr \<Rightarrow> xr result" where
  "init s =
     andThen (reset s) (\<lambda>s0.
       (let s1 = initProbe (initResources s0)
        in if \<not> navigatorXr s1 then Inl (TypeError, s1)
           else andThen (scheduleAnimate (completeInitialization s1)) (\<lambda>s2. Inr (initWire s2))))"

subsection \<open>The resize handler (lines 151 to 158)\<close>

text \<open>
  The handler reads the player's size, resizes the renderer and sets the camera's aspect to
  the quotient of width and height. The quotient is a floating point number and is not
  kept; what the model keeps is that the handler needs the renderer and the camera.
\<close>

definition handleResize :: "xr \<Rightarrow> xr result" where
  "handleResize s =
     (if \<not> renderer s then Inl (TypeError, s)
      else
        (let s1 = emit (Call ''renderer.setSize'') s
         in if \<not> camera s1 then Inl (TypeError, s1)
            else Inr (emit (Call ''camera.updateProjectionMatrix'') s1)))"

section \<open>The event loop\<close>

text \<open>
  The host calls into the plugin: the player and the window fire events, a clock calls
  a frame back, a promise settles, the host calls \<^verbatim>\<open>reset()\<close>. Each such call is one
  \<open>event\<close>, and \<open>step\<close> runs the plugin's code for it to completion. An exception that
  leaves the plugin's code is recorded in \<open>uncaught\<close> with the state as the throw left it;
  so is a rejection that no callback handles.
\<close>

definition absorb :: "xr result \<Rightarrow> xr" where
  "absorb r = (case r of Inl (e, s) \<Rightarrow> s\<lparr>uncaught := uncaught s @ [e]\<rparr> | Inr s \<Rightarrow> s)"

definition unhandled :: "xr \<Rightarrow> xr" where
  "unhandled s = s\<lparr>uncaught := uncaught s @ [UnhandledRejection]\<rparr>"

text \<open>
  Calling a bound method back. A listener is called with the event, a frame callback of
  the session's clock with a time and a frame, a frame callback of the player's clock
  with nothing; only \<open>animate\<close> reads its arguments.
\<close>

fun callback :: "handler \<Rightarrow> bool \<Rightarrow> bool \<Rightarrow> xr \<Rightarrow> xr result" where
  "callback Init enough xrFrame s = init s"
| "callback HandleResize enough xrFrame s = handleResize s"
| "callback HandleVrDisplayActivate enough xrFrame s = handleVrDisplayActivate s"
| "callback HandleVrDisplayDeactivate enough xrFrame s = handleVrDisplayDeactivate s"
| "callback Animate enough xrFrame s = animate enough xrFrame s"

text \<open>
  Dispatching an event to the listeners registered for its type, in the order they were
  registered. \<open>enough\<close> is only read if a listener is \<open>animate\<close>, which the plugin never
  registers as one.
\<close>

fun dispatch :: "string \<Rightarrow> (string \<times> handler) list \<Rightarrow> xr \<Rightarrow> xr" where
  "dispatch ty [] s = s"
| "dispatch ty ((ty', fn) # ls) s =
     dispatch ty ls (if ty' = ty then absorb (callback fn False True s) else s)"

text \<open>
  The listener of the session's \<^verbatim>\<open>end\<close> event (lines 66 to 69) logs and fires
  \<^verbatim>\<open>vrdisplaydeactivate\<close> on the window.
\<close>

definition onSessionEnd :: "xr \<Rightarrow> xr" where
  "onSessionEnd s =
     (let s1 = consoleLog ''session ended'' s
      in dispatch ''vrdisplaydeactivate'' (windowListeners s1) s1)"

datatype event =
    PlayerEvent string
  | WindowEvent string
  | SessionEndEvent nat
  | FrameDue clock nat bool
  | ProbeSettled "bool option"
  | SessionSettled "nat option"
  | ReferenceSpaceSettled "nat option"
  | EndSettled "string option"
  | ResetCalled

text \<open>
  \<^item> \<open>PlayerEvent ty\<close>, \<open>WindowEvent ty\<close>: the player (the window) fires an event of type \<open>ty\<close>;
  \<^item> \<open>SessionEndEvent k\<close>: the session \<open>k\<close> fires \<^verbatim>\<open>end\<close>;
  \<^item> \<open>FrameDue c h enough\<close>: the clock \<open>c\<close> calls back the frame it gave the handle \<open>h\<close>,
    if it still waits;
  \<^item> \<open>ProbeSettled r\<close>: a promise of \<^verbatim>\<open>isSessionSupported\<close> settles, fulfilled with \<open>b\<close> when
    \<open>r = Some b\<close>, rejected when \<open>r = None\<close>;
  \<^item> \<open>SessionSettled r\<close>: a promise of \<^verbatim>\<open>requestSession\<close> settles, fulfilled with the
    session \<open>k\<close> when \<open>r = Some k\<close>, rejected when \<open>r = None\<close>;
  \<^item> \<open>ReferenceSpaceSettled r\<close>: the same for \<^verbatim>\<open>requestReferenceSpace\<close>;
  \<^item> \<open>EndSettled r\<close>: a promise of \<^verbatim>\<open>end()\<close> settles, fulfilled when \<open>r = None\<close>, rejected
    with the error named \<open>n\<close> when \<open>r = Some n\<close>;
  \<^item> \<open>ResetCalled\<close>: the host calls the public method \<^verbatim>\<open>reset()\<close>.
  A settlement with no promise of its kind waiting does nothing.
\<close>

definition frameDue :: "clock \<Rightarrow> nat \<Rightarrow> bool \<Rightarrow> xr \<Rightarrow> xr" where
  "frameDue c h enough s =
     (case filter (\<lambda>(c', h', _). c' = c \<and> h' = h) (pendingFrames s) of
        [] \<Rightarrow> s
      | (_, _, fn) # _ \<Rightarrow>
          absorb (callback fn enough (c \<noteq> PlayerClock)
            (s\<lparr>pendingFrames :=
                 filter (\<lambda>(c', h', _). \<not> (c' = c \<and> h' = h)) (pendingFrames s)\<rparr>)))"

definition step :: "event \<Rightarrow> xr \<Rightarrow> xr" where
  "step ev s =
     (case ev of
        PlayerEvent ty \<Rightarrow> dispatch ty (playerListeners s) s
      | WindowEvent ty \<Rightarrow> dispatch ty (windowListeners s) s
      | SessionEndEvent k \<Rightarrow> if k \<in> set (sessionListeners s) then onSessionEnd s else s
      | FrameDue c h enough \<Rightarrow> frameDue c h enough s
      | ProbeSettled r \<Rightarrow>
          if probes s = 0 then s
          else (case r of
                  None \<Rightarrow> unhandled (s\<lparr>probes := probes s - 1\<rparr>)
                | Some b \<Rightarrow> sessionSupportResolved b (s\<lparr>probes := probes s - 1\<rparr>))
      | SessionSettled r \<Rightarrow>
          if sessionRequests s = 0 then s
          else (case r of
                  None \<Rightarrow> unhandled (s\<lparr>sessionRequests := sessionRequests s - 1\<rparr>)
                | Some k \<Rightarrow> absorb (sessionGranted k (s\<lparr>sessionRequests := sessionRequests s - 1\<rparr>)))
      | ReferenceSpaceSettled r \<Rightarrow>
          if referenceSpaceRequests s = 0 then s
          else (case r of
                  None \<Rightarrow> unhandled (s\<lparr>referenceSpaceRequests := referenceSpaceRequests s - 1\<rparr>)
                | Some sp \<Rightarrow>
                    absorb (referenceSpaceGranted sp
                      (s\<lparr>referenceSpaceRequests := referenceSpaceRequests s - 1\<rparr>)))
      | EndSettled r \<Rightarrow>
          if endRequests s = 0 then s
          else absorb (endSettled r (s\<lparr>endRequests := endRequests s - 1\<rparr>))
      | ResetCalled \<Rightarrow> absorb (reset s))"

fun run :: "event list \<Rightarrow> xr \<Rightarrow> xr" where
  "run [] s = s"
| "run (ev # evs) s = run evs (step ev s)"

text \<open>
  The plugin after its constructor (lines 31 to 52): no field set but \<open>currentSession\<close>,
  which is \<^verbatim>\<open>null\<close>, and one subscription, of \<open>init\<close> to the player's \<^verbatim>\<open>loadedmetadata\<close>.
  \<open>nav\<close> tells whether \<^verbatim>\<open>window.navigator.xr\<close> is there once the constructor has installed
  the polyfill. The player has its default big play button.
\<close>

definition constructed :: "bool \<Rightarrow> xr" where
  "constructed nav =
     playerOn ''loadedmetadata'' Init
       \<lparr>initialized = False, xrSupported = False, xrActive = False, currentSession = None,
        xrReferenceSpace = None, xrPose = None, animationFrameId = None, controls3d = None,
        canvasPlayerControls = False, camera = False, videoTexture = None, renderer = False,
        rendererSession = None, renderedCanvas = None, navigatorXr = nav, videoHidden = False,
        playerChildren = [''BigPlayButton''], controlBarChildren = [], windowListeners = [],
        playerListeners = [], sessionListeners = [], pendingFrames = [], nextHandle = 1,
        probes = 0, sessionRequests = 0, referenceSpaceRequests = 0, endRequests = 0,
        effects = [], uncaught = []\<rparr>"

inductive reachable :: "xr \<Rightarrow> bool" where
  reach_start: "reachable (constructed nav)"
| reach_step: "reachable s \<Longrightarrow> reachable (step ev s)"

section \<open>Notions the properties are stated with\<close>

text \<open>
  The clock the specification names for a call: the immersive session's clock when
  \<open>xrActive\<close> is true, otherwise the host player's. When \<open>xrActive\<close> is true and the session
  handle is \<^verbatim>\<open>null\<close> there is no clock to go to.
\<close>

definition activeClock :: "xr \<Rightarrow> clock option" where
  "activeClock s =
     (if xrActive s then map_option SessionClock (currentSession s) else Some PlayerClock)"

text \<open>The state a call leaves behind, thrown or not, and what the console has received.\<close>

definition after :: "xr result \<Rightarrow> xr" where
  "after r = (case r of Inl (_, s) \<Rightarrow> s | Inr s \<Rightarrow> s)"

fun logged :: "effect list \<Rightarrow> string list" where
  "logged [] = []"
| "logged (ConsoleLog m # es) = m # logged es"
| "logged (_ # es) = logged es"

text \<open>
  Two states used as concrete inputs. \<open>supportedExample\<close>: the player loaded its metadata
  with \<^verbatim>\<open>navigator.xr\<close> present, and the probe answered that immersive sessions are
  supported. \<open>activeExample\<close>: from there the window fired \<^verbatim>\<open>vrdisplayactivate\<close>, the session
  request was granted the session \<open>1\<close> and its reference space request the space \<open>1\<close>.
\<close>

definition supportedExample :: xr where
  "supportedExample =
     run [PlayerEvent ''loadedmetadata'', ProbeSettled (Some True)] (constructed True)"

definition activeExample :: xr where
  "activeExample =
     run [WindowEvent ''vrdisplayactivate'', SessionSettled (Some 1),
          ReferenceSpaceSettled (Some 1)] supportedExample"

text \<open>
  Operations that run together with the settlement of their promises: \<open>DoActivate g r\<close> is
  the activate handler, then the session request settling with \<open>g\<close>, then the reference
  space request (if one was made) settling with \<open>r\<close>; \<open>DoDeactivate r\<close> is the deactivate
  handler, then the promise of \<^verbatim>\<open>end()\<close> settling with \<open>r\<close>. \<open>DoInit\<close> and \<open>DoReset\<close> call the
  public methods, \<open>DoProbe\<close> settles a capability probe, \<open>DoFrame\<close> lets a clock call a frame
  back. \<open>attained\<close> are the states between such operations.
\<close>

datatype operation =
    DoInit
  | DoProbe "bool option"
  | DoReset
  | DoActivate "nat option" "nat option"
  | DoDeactivate "string option"
  | DoFrame clock nat bool

fun perform :: "operation \<Rightarrow> xr \<Rightarrow> xr" where
  "perform DoInit s = absorb (init s)"
| "perform (DoProbe r) s = step (ProbeSettled r) s"
| "perform DoReset s = absorb (reset s)"
| "perform (DoActivate g r) s =
     step (ReferenceSpaceSettled r) (step (SessionSettled g) (absorb (handleVrDisplayActivate s)))"
| "perform (DoDeactivate r) s = step (EndSettled r) (absorb (handleVrDisplayDeactivate s))"
| "perform (DoFrame c h enough) s = step (FrameDue c h enough) s"

fun performAll :: "operation list \<Rightarrow> xr \<Rightarrow> xr" where
  "performAll [] s = s"
| "performAll (ope # opes) s = performAll opes (perform ope s)"

inductive attained :: "xr \<Rightarrow> bool" where
  attained_start: "attained (constructed nav)"
| attained_perform: "attained s \<Longrightarrow> attained (perform ope s)"

text \<open>No promise of a session, of a reference space or of an end is waiting.\<close>

definition quiet :: "xr \<Rightarrow> bool" where
  "quiet s =
     (sessionRequests s = 0 \<and> referenceSpaceRequests s = 0 \<and> endRequests s = 0)"

text \<open>
  The deactivate handler is subscribed to the window; and the objects its continuation
  calls are there.
\<close>

definition subscribed :: "xr \<Rightarrow> bool" where
  "subscribed s = ((''vrdisplaydeactivate'', HandleVrDisplayDeactivate) \<in> set (windowListeners s))"

definition equipped :: "xr \<Rightarrow> bool" where
  "equipped s = (controls3d s \<noteq> None \<and> renderer s)"

text \<open>
  The four subscriptions init makes on the window (lines 256 to 259), and the states in
  which the window holds nothing but these, each at most once.
\<close>

definition windowSubscriptions :: "(string \<times> handler) list" where
  "windowSubscriptions =
     [(''vrdisplaypresentchange'', HandleResize), (''resize'', HandleResize),
      (''vrdisplayactivate'', HandleVrDisplayActivate),
      (''vrdisplaydeactivate'', HandleVrDisplayDeactivate)]"

definition ownListeners :: "xr \<Rightarrow> bool" where
  "ownListeners s =
     (distinct (windowListeners s) \<and> set (windowListeners s) \<subseteq> set windowSubscriptions)"

text \<open>
  Three views of a state, for the invariants: the fields that tell where the session
  stands; whether every waiting frame calls \<open>animate\<close>; and the subscriptions on the
  window, with whether the controls exist and whether the renderer exists.
\<close>

definition lifecycle :: "xr \<Rightarrow> bool \<times> nat option \<times> nat \<times> nat \<times> nat" where
  "lifecycle s =
     (xrActive s, currentSession s, sessionRequests s, referenceSpaceRequests s, endRequests s)"

definition animateOnly :: "xr \<Rightarrow> bool" where
  "animateOnly s = list_all (\<lambda>(_, _, fn). fn = Animate) (pendingFrames s)"

definition rig :: "xr \<Rightarrow> (string \<times> handler) list \<times> bool \<times> bool" where
  "rig s = (windowListeners s, controls3d s \<noteq> None, renderer s)"

text \<open>
  Two more concrete states. \<open>rejectedExample\<close>: from \<open>supportedExample\<close> the window fired
  \<^verbatim>\<open>vrdisplayactivate\<close> and the session request was rejected. \<open>doubledExample\<close>: from
  \<open>activeExample\<close> the window fired \<^verbatim>\<open>vrdisplaydeactivate\<close>; the handler called \<^verbatim>\<open>end()\<close>, so the
  session ended and fired its \<^verbatim>\<open>end\<close> event, whose listener (lines 66 to 69) fired
  \<^verbatim>\<open>vrdisplaydeactivate\<close> again; the second \<^verbatim>\<open>end()\<close>, on the session that had already ended,
  was rejected with InvalidStateError, and then the promise of the first was fulfilled.
\<close>

definition rejectedExample :: xr where
  "rejectedExample = run [WindowEvent ''vrdisplayactivate'', SessionSettled None] supportedExample"

definition doubledExample :: xr where
  "doubledExample =
     run [WindowEvent ''vrdisplaydeactivate'', SessionEndEvent 1,
          EndSettled (Some ''InvalidStateError''), EndSettled None] activeExample"

text \<open>
  The calls \<open>s'\<close> has made are the calls \<open>s\<close> had made, followed by calls that all
  satisfy \<open>P\<close>.
\<close>

definition appends :: "(effect \<Rightarrow> bool) \<Rightarrow> xr \<Rightarrow> xr \<Rightarrow> bool" where
  "appends P s s' = (\<exists>es. effects s' = effects s @ es \<and> list_all P es)"

section \<open>Evaluating the model\<close>

lemma andThen_Inr: "andThen (Inr a) f = f a"
  by (simp add: andThen_def)

lemma andThen_Inl: "andThen (Inl e) f = Inl e"
  by (simp add: andThen_def)

lemma andThen_cong: "r = r' \<Longrightarrow> andThen r f = andThen r' f"
  by simp

lemmas method_defs =
  init_def reset_def initProbe_def initResources_def completeInitialization_def initWire_def
  resetControls_def resetListeners_def resetChildren_def resetVideoStyle_def resetCanvas_def
  setInitialized_def scheduleAnimate_def requestAnimationFrame_def cancelAnimationFrame_def
  cancelPending_def schedule_def unschedule_def emit_def trigger_def consoleLog_def
  addEventListener_def removeEventListener_def playerOn_def playerAddChild_def
  playerRemoveChild_def controlBarAddChild_def controlBarRemoveChild_def
  newOrbitOrientationControls_def sessionSupportResolved_def addCardboardButton_def
  handleVrDisplayActivate_def sessionGranted_def referenceSpaceGranted_def
  handleVrDisplayDeactivate_def endCaught_def endThen_def endSettled_def animate_def
  handleResize_def

lemmas loop_defs = step_def frameDue_def onSessionEnd_def absorb_def unhandled_def

lemmas run_simps = method_defs loop_defs andThen_Inr andThen_Inl Let_def

lemma supportedExample_eq:
  "supportedExample =
     \<lparr>initialized = True, xrSupported = True, xrActive = False, currentSession = None,
      xrReferenceSpace = None, xrPose = None, animationFrameId = Some 1,
      controls3d = Some True, canvasPlayerControls = True, camera = True,
      videoTexture = Some False, renderer = True, rendererSession = None,
      renderedCanvas = Some True, navigatorXr = True, videoHidden = True,
      playerChildren = [''BigVrPlayButton''], controlBarChildren = [''CardboardButton''],
      windowListeners =
        [(''vrdisplaypresentchange'', HandleResize), (''resize'', HandleResize),
         (''vrdisplayactivate'', HandleVrDisplayActivate),
         (''vrdisplaydeactivate'', HandleVrDisplayDeactivate)],
      playerListeners = [(''loadedmetadata'', Init), (''fullscreenchange'', HandleResize)],
      sessionListeners = [], pendingFrames = [(PlayerClock, 1, Animate)], nextHandle = 2,
      probes = 0, sessionRequests = 0, referenceSpaceRequests = 0, endRequests = 0,
      effects =
        [AddListener Player ''loadedmetadata'' Init,
         Call ''player.removeChild BigPlayButton'', Call ''player.addChild BigVrPlayButton'',
         Call ''new WebGLRenderer'', Call ''insertBefore canvas'', Call ''videoEl.style hide'',
         Call ''new OrbitOrientationControls'', Call ''renderer.xr.enabled = true'',
         IsSessionSupported, SetInitialized True, Trigger ''initialized'',
         ScheduleFrame PlayerClock 1 Animate,
         AddListener Player ''fullscreenchange'' HandleResize,
         AddListener Window ''vrdisplaypresentchange'' HandleResize,
         AddListener Window ''resize'' HandleResize,
         AddListener Window ''vrdisplayactivate'' HandleVrDisplayActivate,
         AddListener Window ''vrdisplaydeactivate'' HandleVrDisplayDeactivate,
         Call ''controlBar.addChild CardboardButton'',
         ConsoleLog ''webxr session supported''],
      uncaught = []\<rparr>"
  unfolding supportedExample_def constructed_def
  by (simp add: run_simps cong: andThen_cong let_weak_cong)

lemma activeExample_eq:
  "activeExample =
     supportedExample
       \<lparr>xrActive := True, currentSession := Some 1, xrReferenceSpace := Some 1,
        animationFrameId := Some 2, controls3d := Some False, rendererSession := Some 1,
        sessionListeners := [1], pendingFrames := [(SessionClock 1, 2, Animate)],
        nextHandle := 3,
        effects := effects supportedExample @
          [CancelFrame PlayerClock 1, Call ''controls3d.disable'', RequestSession,
           AddSessionEndListener 1, SetSession (Some 1), RequestReferenceSpace 1,
           Trigger ''xrSessionActivated'', ScheduleFrame (SessionClock 1) 2 Animate]\<rparr>"
  unfolding activeExample_def supportedExample_eq
  by (simp add: run_simps cong: andThen_cong let_weak_cong)

section \<open>What each method leaves alone\<close>

text \<open>
  The lemmas of this section follow each method through its branches, thrown or returned,
  and record what it does to the three views \<open>lifecycle\<close>, \<open>animateOnly\<close> and \<open>rig\<close>.
\<close>

lemma after_simps [simp]: "after (Inl (e, s)) = s" "after (Inr s) = s"
  by (simp_all add: after_def)

lemma absorb_views [simp]:
  "lifecycle (absorb r) = lifecycle (after r)"
  "rig (absorb r) = rig (after r)"
  "animateOnly (absorb r) = animateOnly (after r)"
  by (auto simp: absorb_def after_def lifecycle_def rig_def animateOnly_def subscribed_def split: sum.splits)

lemma absorb_fields:
  "xrActive (absorb r) = xrActive (after r)"
  "currentSession (absorb r) = currentSession (after r)"
  "sessionRequests (absorb r) = sessionRequests (after r)"
  "referenceSpaceRequests (absorb r) = referenceSpaceRequests (after r)"
  "endRequests (absorb r) = endRequests (after r)"
  by (auto simp: absorb_def after_def split: sum.splits)

lemmas view_defs = lifecycle_def rig_def animateOnly_def subscribed_def

lemmas plain_defs = emit_def trigger_def consoleLog_def playerOn_def playerAddChild_def
  playerRemoveChild_def controlBarAddChild_def controlBarRemoveChild_def
  removeEventListener_def resetListeners_def resetVideoStyle_def setInitialized_def
  completeInitialization_def unschedule_def schedule_def unhandled_def

lemma cancelPending_Inl: "cancelPending s = Inl (e, s1) \<Longrightarrow> s1 = s"
  by (auto simp: cancelPending_def cancelAnimationFrame_def split: option.splits if_splits)

lemma cancelPending_Inr:
  "cancelPending s = Inr s1 \<Longrightarrow>
     lifecycle s1 = lifecycle s \<and> rig s1 = rig s \<and> (animateOnly s \<longrightarrow> animateOnly s1)
     \<and> initialized s1 = initialized s \<and> xrSupported s1 = xrSupported s
     \<and> controls3d s1 = controls3d s \<and> uncaught s1 = uncaught s"
  by (auto simp: cancelPending_def cancelAnimationFrame_def view_defs plain_defs list_all_iff
      split: option.splits if_splits)

lemma scheduleAnimate_Inl: "scheduleAnimate s = Inl (e, s1) \<Longrightarrow> s1 = s \<and> xrActive s \<and> currentSession s = None"
  by (auto simp: scheduleAnimate_def requestAnimationFrame_def andThen_def schedule_def
      split: option.splits if_splits)

lemma scheduleAnimate_Inr:
  "scheduleAnimate s = Inr s1 \<Longrightarrow>
     lifecycle s1 = lifecycle s \<and> rig s1 = rig s \<and> (animateOnly s \<longrightarrow> animateOnly s1)
     \<and> initialized s1 = initialized s \<and> xrSupported s1 = xrSupported s
     \<and> controls3d s1 = controls3d s \<and> uncaught s1 = uncaught s"
  by (auto simp: scheduleAnimate_def requestAnimationFrame_def andThen_def view_defs plain_defs
      split: option.splits if_splits)

lemma scheduleAnimate_returns:
  "xrActive s \<longrightarrow> currentSession s \<noteq> None \<Longrightarrow> \<exists>s1. scheduleAnimate s = Inr s1"
  by (auto simp: scheduleAnimate_def requestAnimationFrame_def andThen_def schedule_def
      split: option.splits)

lemma resetCanvas_Inl: "resetCanvas s = Inl (e, s1) \<Longrightarrow> s1 = s"
  by (auto simp: resetCanvas_def split: option.splits if_splits)

lemma resetCanvas_Inr:
  "resetCanvas s = Inr s1 \<Longrightarrow>
     lifecycle s1 = lifecycle s \<and> rig s1 = rig s \<and> animateOnly s1 = animateOnly s
     \<and> initialized s1 = initialized s \<and> xrSupported s1 = xrSupported s
     \<and> controls3d s1 = controls3d s \<and> uncaught s1 = uncaught s"
  by (auto simp: resetCanvas_def view_defs plain_defs split: option.splits if_splits)

lemma resetControls_views [simp]:
  "lifecycle (resetControls s) = lifecycle s"
  "animateOnly (resetControls s) = animateOnly s"
  "windowListeners (resetControls s) = windowListeners s"
  "controls3d (resetControls s) = None"
  "renderer (resetControls s) = renderer s"
  "initialized (resetControls s) = initialized s"
  by (simp_all add: resetControls_def view_defs plain_defs Let_def split: option.splits)

lemma resetChildren_views [simp]:
  "lifecycle (resetChildren s) = lifecycle s"
  "animateOnly (resetChildren s) = animateOnly s"
  "windowListeners (resetChildren s) = windowListeners s"
  "controls3d (resetChildren s) = controls3d s"
  "renderer (resetChildren s) = renderer s"
  "initialized (resetChildren s) = initialized s"
  by (simp_all add: resetChildren_def view_defs plain_defs Let_def)

lemma resetListeners_views [simp]:
  "lifecycle (resetListeners s) = lifecycle s"
  "animateOnly (resetListeners s) = animateOnly s"
  "\<not> subscribed (resetListeners s)"
  "controls3d (resetListeners s) = controls3d s"
  "renderer (resetListeners s) = renderer s"
  "initialized (resetListeners s) = initialized s"
  by (simp_all add: view_defs plain_defs)

lemma resetVideoStyle_views [simp]:
  "lifecycle (resetVideoStyle s) = lifecycle s"
  "animateOnly (resetVideoStyle s) = animateOnly s"
  "windowListeners (resetVideoStyle s) = windowListeners s"
  "controls3d (resetVideoStyle s) = controls3d s"
  "renderer (resetVideoStyle s) = renderer s"
  "initialized (resetVideoStyle s) = initialized s"
  by (simp_all add: view_defs plain_defs)


lemma subscribed_cong: "windowListeners s' = windowListeners s \<Longrightarrow> subscribed s' = subscribed s"
  by (simp add: subscribed_def)

lemma reset_cases:
  obtains (idle) "\<not> initialized s" "reset s = Inr s"
  | (thrown) e s1 where "initialized s" "reset s = Inl (e, s1)" "lifecycle s1 = lifecycle s"
      "\<not> subscribed s1" "animateOnly s \<longrightarrow> animateOnly s1"
  | (finished) s1 where "initialized s" "reset s = Inr s1" "lifecycle s1 = lifecycle s"
      "\<not> subscribed s1" "animateOnly s \<longrightarrow> animateOnly s1" "\<not> initialized s1"
      "controls3d s1 = None" "renderer s1 = renderer s"
proof (cases "initialized s")
  case False
  then show ?thesis using idle by (simp add: reset_def)
next
  case True
  define x where "x = resetVideoStyle (resetChildren (resetListeners (resetControls s)))"
  have x: "lifecycle x = lifecycle s" "\<not> subscribed x" "animateOnly x = animateOnly s"
    "controls3d x = None" "renderer x = renderer s"
    by (simp_all add: x_def subscribed_cong [of "resetVideoStyle _"] subscribed_cong [of "resetChildren _"])
  have r: "reset s = andThen (resetCanvas x)
      (\<lambda>s1. andThen (cancelPending s1) (\<lambda>s2. Inr (setInitialized False s2)))"
    using True by (simp add: reset_def x_def)
  show ?thesis
  proof (cases "resetCanvas x")
    case (Inl p)
    obtain e s1 where p: "p = (e, s1)" by (cases p)
    from Inl p have "s1 = x" by (auto dest: resetCanvas_Inl)
    with Inl p r x True show ?thesis by (intro thrown [of e s1]) (simp_all add: andThen_def)
  next
    case (Inr y)
    from resetCanvas_Inr [OF Inr] x
    have y: "lifecycle y = lifecycle s" "\<not> subscribed y" "animateOnly y = animateOnly s"
      "controls3d y = None" "renderer y = renderer s"
      by (simp_all add: rig_def subscribed_def)
    show ?thesis
    proof (cases "cancelPending y")
      case (Inl p)
      obtain e s1 where p: "p = (e, s1)" by (cases p)
      from Inl p have "s1 = y" by (auto dest: cancelPending_Inl)
      with Inl p r y True \<open>resetCanvas x = Inr y\<close> show ?thesis
        by (intro thrown [of e s1]) (simp_all add: andThen_def)
    next
      case (Inr z)
      from cancelPending_Inr [OF Inr] y
      have z: "lifecycle z = lifecycle s" "\<not> subscribed z" "animateOnly s \<longrightarrow> animateOnly z"
        "controls3d z = None" "renderer z = renderer s"
        by (simp_all add: rig_def subscribed_def)
      from Inr r \<open>resetCanvas x = Inr y\<close> have "reset s = Inr (setInitialized False z)"
        by (simp add: andThen_def)
      with z True show ?thesis
        by (intro finished [of "setInitialized False z"])
          (simp_all add: setInitialized_def emit_def view_defs)
    qed
  qed
qed


lemma lifecycle_fields:
  "xrActive s = fst (lifecycle s)"
  "currentSession s = fst (snd (lifecycle s))"
  "sessionRequests s = fst (snd (snd (lifecycle s)))"
  "referenceSpaceRequests s = fst (snd (snd (snd (lifecycle s))))"
  "endRequests s = snd (snd (snd (snd (lifecycle s))))"
  by (simp_all add: lifecycle_def)

lemma initResources_views [simp]:
  "lifecycle (initResources s) =
     (False, currentSession s, sessionRequests s, referenceSpaceRequests s, endRequests s)"
  "animateOnly (initResources s) = animateOnly s"
  "windowListeners (initResources s) = windowListeners s"
  "equipped (initResources s)"
  "navigatorXr (initResources s) = navigatorXr s"
  by (auto simp: initResources_def view_defs plain_defs Let_def equipped_def
      newOrbitOrientationControls_def split: option.splits)

lemma initProbe_views [simp]:
  "lifecycle (initProbe s) = lifecycle s"
  "animateOnly (initProbe s) = animateOnly s"
  "windowListeners (initProbe s) = windowListeners s"
  "equipped (initProbe s) = equipped s"
  "navigatorXr (initProbe s) = navigatorXr s"
  by (simp_all add: initProbe_def view_defs plain_defs equipped_def)

lemma completeInitialization_views [simp]:
  "lifecycle (completeInitialization s) = lifecycle s"
  "animateOnly (completeInitialization s) = animateOnly s"
  "windowListeners (completeInitialization s) = windowListeners s"
  "equipped (completeInitialization s) = equipped s"
  by (simp_all add: view_defs plain_defs equipped_def)

lemma initWire_views [simp]:
  "lifecycle (initWire s) = lifecycle s"
  "animateOnly (initWire s) = animateOnly s"
  "equipped (initWire s) = equipped s"
  by (simp_all add: initWire_def addEventListener_def view_defs plain_defs equipped_def)

lemma equipped_rig: "rig s' = rig s \<Longrightarrow> equipped s' = equipped s"
  by (auto simp: rig_def equipped_def)

lemma wired_rig:
  "rig s' = rig s \<Longrightarrow> (subscribed s' \<longrightarrow> equipped s') = (subscribed s \<longrightarrow> equipped s)"
  by (auto simp: rig_def equipped_def subscribed_def)

lemma init_after:
  "currentSession (after (init s)) = currentSession s"
  "sessionRequests (after (init s)) = sessionRequests s"
  "referenceSpaceRequests (after (init s)) = referenceSpaceRequests s"
  "endRequests (after (init s)) = endRequests s"
  "xrActive (after (init s)) \<longrightarrow> xrActive s"
  "animateOnly s \<longrightarrow> animateOnly (after (init s))"
  "subscribed s \<longrightarrow> equipped s \<Longrightarrow> subscribed (after (init s)) \<longrightarrow> equipped (after (init s))"
proof -
  have "currentSession (after (init s)) = currentSession s
    \<and> sessionRequests (after (init s)) = sessionRequests s
    \<and> referenceSpaceRequests (after (init s)) = referenceSpaceRequests s
    \<and> endRequests (after (init s)) = endRequests s
    \<and> (xrActive (after (init s)) \<longrightarrow> xrActive s)
    \<and> (animateOnly s \<longrightarrow> animateOnly (after (init s)))
    \<and> ((subscribed s \<longrightarrow> equipped s) \<longrightarrow> subscribed (after (init s)) \<longrightarrow> equipped (after (init s)))"
  proof -
    have body: "lifecycle s0 = lifecycle s \<Longrightarrow> animateOnly s \<longrightarrow> animateOnly s0 \<Longrightarrow>
        reset s = Inr s0 \<Longrightarrow> ?thesis" for s0
    proof -
      assume s0: "lifecycle s0 = lifecycle s" "animateOnly s \<longrightarrow> animateOnly s0" "reset s = Inr s0"
      define s1 where "s1 = initProbe (initResources s0)"
      have s0': "currentSession s0 = currentSession s" "sessionRequests s0 = sessionRequests s"
        "referenceSpaceRequests s0 = referenceSpaceRequests s" "endRequests s0 = endRequests s"
        using s0 by (simp_all add: lifecycle_def)
      have s1: "lifecycle s1 =
          (False, currentSession s, sessionRequests s, referenceSpaceRequests s, endRequests s)"
        "animateOnly s1 = animateOnly s0" "equipped s1" "navigatorXr s1 = navigatorXr s0"
        by (simp_all add: s1_def s0')
      have i: "init s = (if \<not> navigatorXr s1 then Inl (TypeError, s1)
          else andThen (scheduleAnimate (completeInitialization s1)) (\<lambda>s2. Inr (initWire s2)))"
        using s0 by (simp add: init_def andThen_def s1_def Let_def)
      show ?thesis
      proof (cases "navigatorXr s1")
        case False
        with i have "after (init s) = s1" by simp
        with s1 s0 show ?thesis by (simp add: lifecycle_fields)
      next
        case True
        have "\<not> xrActive (completeInitialization s1)"
          using s1 by (simp add: lifecycle_def plain_defs)
        then obtain s2 where s2: "scheduleAnimate (completeInitialization s1) = Inr s2"
          using scheduleAnimate_returns [of "completeInitialization s1"] by auto
        from scheduleAnimate_Inr [OF s2] s1
        have v: "lifecycle s2 =
            (False, currentSession s, sessionRequests s, referenceSpaceRequests s, endRequests s)"
          "animateOnly s1 \<longrightarrow> animateOnly s2" "equipped s2"
          by (simp_all add: equipped_rig [of s2 "completeInitialization s1"])
        from i True s2 have "after (init s) = initWire s2" by (simp add: andThen_def)
        with v s1 s0 show ?thesis by (simp add: lifecycle_fields)
      qed
    qed
    show ?thesis
    proof (cases s rule: reset_cases)
      case idle
      then show ?thesis using body [of s] by simp
    next
      case (thrown e s1)
      then have "after (init s) = s1" by (simp add: init_def andThen_def)
      with thrown show ?thesis by (simp add: lifecycle_fields)
    next
      case (finished s1)
      then show ?thesis using body [of s1] by simp
    qed
  qed
  then show
    "currentSession (after (init s)) = currentSession s"
    "sessionRequests (after (init s)) = sessionRequests s"
    "referenceSpaceRequests (after (init s)) = referenceSpaceRequests s"
    "endRequests (after (init s)) = endRequests s"
    "xrActive (after (init s)) \<longrightarrow> xrActive s"
    "animateOnly s \<longrightarrow> animateOnly (after (init s))"
    "subscribed s \<longrightarrow> equipped s \<Longrightarrow> subscribed (after (init s)) \<longrightarrow> equipped (after (init s))"
    by simp_all
qed


lemma handleVrDisplayActivate_after:
  "rig (after (handleVrDisplayActivate s)) = rig s"
  "animateOnly s \<longrightarrow> animateOnly (after (handleVrDisplayActivate s))"
  "lifecycle (after (handleVrDisplayActivate s)) = lifecycle s
   \<or> lifecycle (after (handleVrDisplayActivate s)) =
       (xrActive s, currentSession s, Suc (sessionRequests s), referenceSpaceRequests s,
        endRequests s)"
proof -
  have "rig (after (handleVrDisplayActivate s)) = rig s
    \<and> (animateOnly s \<longrightarrow> animateOnly (after (handleVrDisplayActivate s)))
    \<and> (lifecycle (after (handleVrDisplayActivate s)) = lifecycle s
       \<or> lifecycle (after (handleVrDisplayActivate s)) =
          (xrActive s, currentSession s, Suc (sessionRequests s), referenceSpaceRequests s,
           endRequests s))"
  proof (cases "xrSupported s")
    case False
    then show ?thesis by (simp add: handleVrDisplayActivate_def)
  next
    case True
    show ?thesis
    proof (cases "cancelPending s")
      case (Inl p)
      then have "after (handleVrDisplayActivate s) = s"
        using True by (cases p) (auto simp: handleVrDisplayActivate_def andThen_def dest: cancelPending_Inl)
      then show ?thesis by simp
    next
      case (Inr s1)
      note v = cancelPending_Inr [OF Inr]
      show ?thesis
      proof (cases "controls3d s1")
        case None
        then have "after (handleVrDisplayActivate s) = s1"
          using True Inr by (simp add: handleVrDisplayActivate_def andThen_def)
        with v show ?thesis by simp
      next
        case (Some b)
        define s2 where "s2 = emit (Call ''controls3d.disable'') (s1\<lparr>controls3d := Some False\<rparr>)"
        define s3 where "s3 = emit RequestSession (s2\<lparr>sessionRequests := Suc (sessionRequests s2)\<rparr>)"
        have h: "handleVrDisplayActivate s =
            (if \<not> navigatorXr s2 then Inl (TypeError, s2) else Inr s3)"
          using True Inr Some
          by (simp add: handleVrDisplayActivate_def andThen_def s2_def s3_def Let_def)
        have v2: "rig s2 = rig s1" "animateOnly s2 = animateOnly s1" "lifecycle s2 = lifecycle s1"
          using Some by (simp_all add: s2_def view_defs plain_defs)
        have v3: "rig s3 = rig s2" "animateOnly s3 = animateOnly s2"
          "lifecycle s3 = (xrActive s2, currentSession s2, Suc (sessionRequests s2),
             referenceSpaceRequests s2, endRequests s2)"
          by (simp_all add: s3_def view_defs plain_defs)
        show ?thesis
        proof (cases "navigatorXr s2")
          case False
          with h have "after (handleVrDisplayActivate s) = s2" by simp
          with v v2 show ?thesis by simp
        next
          case True
          with h have "after (handleVrDisplayActivate s) = s3" by simp
          with v v2 v3 show ?thesis by (simp add: lifecycle_fields)
        qed
      qed
    qed
  qed
  then show
    "rig (after (handleVrDisplayActivate s)) = rig s"
    "animateOnly s \<longrightarrow> animateOnly (after (handleVrDisplayActivate s))"
    "lifecycle (after (handleVrDisplayActivate s)) = lifecycle s
     \<or> lifecycle (after (handleVrDisplayActivate s)) =
         (xrActive s, currentSession s, Suc (sessionRequests s), referenceSpaceRequests s,
          endRequests s)"
    by simp_all
qed

lemma handleVrDisplayDeactivate_after:
  "rig (after (handleVrDisplayDeactivate s)) = rig s"
  "animateOnly s \<longrightarrow> animateOnly (after (handleVrDisplayDeactivate s))"
  "lifecycle (after (handleVrDisplayDeactivate s)) = lifecycle s
   \<or> lifecycle (after (handleVrDisplayDeactivate s)) =
       (xrActive s, currentSession s, sessionRequests s, referenceSpaceRequests s,
        Suc (endRequests s))"
proof -
  have "rig (after (handleVrDisplayDeactivate s)) = rig s
    \<and> (animateOnly s \<longrightarrow> animateOnly (after (handleVrDisplayDeactivate s)))
    \<and> (lifecycle (after (handleVrDisplayDeactivate s)) = lifecycle s
       \<or> lifecycle (after (handleVrDisplayDeactivate s)) =
          (xrActive s, currentSession s, sessionRequests s, referenceSpaceRequests s,
           Suc (endRequests s)))"
  proof (cases "xrSupported s")
    case False
    then show ?thesis by (simp add: handleVrDisplayDeactivate_def)
  next
    case True
    show ?thesis
    proof (cases "cancelPending s")
      case (Inl p)
      then have "after (handleVrDisplayDeactivate s) = s"
        using True by (cases p) (auto simp: handleVrDisplayDeactivate_def andThen_def dest: cancelPending_Inl)
      then show ?thesis by simp
    next
      case (Inr s1)
      note v = cancelPending_Inr [OF Inr]
      show ?thesis
      proof (cases "currentSession s1")
        case None
        then have "after (handleVrDisplayDeactivate s) = s1"
          using True Inr by (simp add: handleVrDisplayDeactivate_def andThen_def)
        with v show ?thesis by simp
      next
        case (Some k)
        define s2 where "s2 = emit (EndSession k) (s1\<lparr>endRequests := Suc (endRequests s1)\<rparr>)"
        have "after (handleVrDisplayDeactivate s) = s2"
          using True Inr Some by (simp add: handleVrDisplayDeactivate_def andThen_def s2_def)
        moreover have "rig s2 = rig s1" "animateOnly s2 = animateOnly s1"
          "lifecycle s2 = (xrActive s1, currentSession s1, sessionRequests s1,
             referenceSpaceRequests s1, Suc (endRequests s1))"
          by (simp_all add: s2_def view_defs plain_defs)
        ultimately show ?thesis using v by (simp add: lifecycle_fields)
      qed
    qed
  qed
  then show
    "rig (after (handleVrDisplayDeactivate s)) = rig s"
    "animateOnly s \<longrightarrow> animateOnly (after (handleVrDisplayDeactivate s))"
    "lifecycle (after (handleVrDisplayDeactivate s)) = lifecycle s
     \<or> lifecycle (after (handleVrDisplayDeactivate s)) =
         (xrActive s, currentSession s, sessionRequests s, referenceSpaceRequests s,
          Suc (endRequests s))"
    by simp_all
qed

lemma sessionGranted_after:
  "rig (after (sessionGranted k s)) = rig s"
  "animateOnly (after (sessionGranted k s)) = animateOnly s"
  "lifecycle (after (sessionGranted k s)) = lifecycle s
   \<or> lifecycle (after (sessionGranted k s)) =
       (xrActive s, Some k, sessionRequests s, Suc (referenceSpaceRequests s), endRequests s)"
  by (simp_all add: sessionGranted_def view_defs plain_defs Let_def)

lemma referenceSpaceGranted_after:
  "rig (after (referenceSpaceGranted r s)) = rig s"
  "animateOnly s \<longrightarrow> animateOnly (after (referenceSpaceGranted r s))"
  "lifecycle (after (referenceSpaceGranted r s)) =
     (True, currentSession s, sessionRequests s, referenceSpaceRequests s, endRequests s)"
proof -
  define s1 where "s1 = trigger ''xrSessionActivated'' (s\<lparr>xrReferenceSpace := Some r, xrActive := True\<rparr>)"
  have s1: "rig s1 = rig s" "animateOnly s1 = animateOnly s"
    "lifecycle s1 = (True, currentSession s, sessionRequests s, referenceSpaceRequests s, endRequests s)"
    by (simp_all add: s1_def view_defs plain_defs)
  have r: "referenceSpaceGranted r s = scheduleAnimate s1"
    by (simp add: referenceSpaceGranted_def s1_def)
  have "rig (after (scheduleAnimate s1)) = rig s1
    \<and> (animateOnly s1 \<longrightarrow> animateOnly (after (scheduleAnimate s1)))
    \<and> lifecycle (after (scheduleAnimate s1)) = lifecycle s1"
    by (cases "scheduleAnimate s1") (auto dest!: scheduleAnimate_Inl scheduleAnimate_Inr)
  with s1 r show
    "rig (after (referenceSpaceGranted r s)) = rig s"
    "animateOnly s \<longrightarrow> animateOnly (after (referenceSpaceGranted r s))"
    "lifecycle (after (referenceSpaceGranted r s)) =
       (True, currentSession s, sessionRequests s, referenceSpaceRequests s, endRequests s)"
    by simp_all
qed

lemma scheduleAnimate_after:
  "rig (after (scheduleAnimate s)) = rig s"
  "animateOnly s \<longrightarrow> animateOnly (after (scheduleAnimate s))"
  "lifecycle (after (scheduleAnimate s)) = lifecycle s"
  by (cases "scheduleAnimate s"; auto dest!: scheduleAnimate_Inl scheduleAnimate_Inr)+

lemma endSettled_after:
  "rig (after (endSettled r s)) = rig s"
  "animateOnly s \<longrightarrow> animateOnly (after (endSettled r s))"
  "lifecycle (after (endSettled r s)) =
     (False, None, sessionRequests s, referenceSpaceRequests s, endRequests s)"
proof -
  define s0 where "s0 = (case r of None \<Rightarrow> s | Some name \<Rightarrow> endCaught name s)"
  have s0: "rig s0 = rig s" "animateOnly s0 = animateOnly s" "lifecycle s0 = lifecycle s"
    by (simp_all add: s0_def endCaught_def view_defs plain_defs split: option.splits)
  have "rig (after (endThen s0)) = rig s0
    \<and> (animateOnly s0 \<longrightarrow> animateOnly (after (endThen s0)))
    \<and> lifecycle (after (endThen s0)) =
       (False, None, sessionRequests s0, referenceSpaceRequests s0, endRequests s0)"
  proof (cases "renderer s0")
    case False
    then show ?thesis by (simp add: endThen_def Let_def view_defs)
  next
    case True
    show ?thesis
    proof (cases "controls3d s0")
      case None
      with True show ?thesis by (simp add: endThen_def Let_def view_defs plain_defs)
    next
      case (Some b)
      define s3 where "s3 = trigger ''xrSessionDeactivated''
        (emit (Call ''controls3d.enable'')
          ((emit (SetSession None) (s0\<lparr>xrActive := False, currentSession := None, rendererSession := None\<rparr>))
             \<lparr>controls3d := Some True\<rparr>))"
      have e: "endThen s0 = scheduleAnimate s3"
        using True Some by (simp add: endThen_def Let_def s3_def plain_defs)
      have s3: "rig s3 = rig s0" "animateOnly s3 = animateOnly s0"
        "lifecycle s3 = (False, None, sessionRequests s0, referenceSpaceRequests s0, endRequests s0)"
        using True Some by (simp_all add: s3_def view_defs plain_defs)
      from s3 e scheduleAnimate_after [of s3] show ?thesis by simp
    qed
  qed
  with s0 show
    "rig (after (endSettled r s)) = rig s"
    "animateOnly s \<longrightarrow> animateOnly (after (endSettled r s))"
    "lifecycle (after (endSettled r s)) =
       (False, None, sessionRequests s, referenceSpaceRequests s, endRequests s)"
    by (simp_all add: endSettled_def s0_def [symmetric] lifecycle_fields)
qed


lemma animate_after:
  "rig (after (animate enough xrFrame s)) = rig s"
  "animateOnly s \<longrightarrow> animateOnly (after (animate enough xrFrame s))"
  "lifecycle (after (animate enough xrFrame s)) = lifecycle s"
proof -
  have "rig (after (animate enough xrFrame s)) = rig s
    \<and> (animateOnly s \<longrightarrow> animateOnly (after (animate enough xrFrame s)))
    \<and> lifecycle (after (animate enough xrFrame s)) = lifecycle s"
  proof (cases "initialized s")
    case False
    then show ?thesis by (simp add: animate_def)
  next
    case True
    define s1 where "s1 = (if enough
      then (case videoTexture s of None \<Rightarrow> s | Some _ \<Rightarrow> s\<lparr>videoTexture := Some True\<rparr>)
      else s)"
    have s1: "rig s1 = rig s" "animateOnly s1 = animateOnly s" "lifecycle s1 = lifecycle s"
      "camera s1 = camera s"
      by (simp_all add: s1_def view_defs split: option.splits)
    define rest where "rest = (\<lambda>s2.
      andThen
        (if \<not> xrActive s2
         then (case controls3d s2 of
                 None \<Rightarrow> Inl (TypeError, s2)
               | Some _ \<Rightarrow> Inr (emit (Call ''controls3d.update'') s2))
         else Inr s2) (\<lambda>s3.
      (let s4 = (if xrActive s3 \<and> xrFrame
                 then trigger ''xrCameraUpdate''
                        (emit (Call ''xrFrame.getViewerPose'')
                          (s3\<lparr>xrPose := xrReferenceSpace s3\<rparr>))
                 else s3)
       in if \<not> renderer s4 then Inl (TypeError, s4)
          else Inr (emit (Call ''renderer.render'') s4))))"
    have rest: "rig (after (rest s2)) = rig s2 \<and> animateOnly (after (rest s2)) = animateOnly s2
      \<and> lifecycle (after (rest s2)) = lifecycle s2" for s2
      by (simp add: rest_def andThen_def Let_def view_defs plain_defs split: option.splits)
    have a: "animate enough xrFrame s =
      (if \<not> camera s1 then Inl (TypeError, s1)
       else andThen (scheduleAnimate (emit (Call ''camera.getWorldDirection'') s1)) rest)"
      using True by (simp add: animate_def s1_def rest_def Let_def)
    show ?thesis
    proof (cases "camera s1")
      case False
      with a s1 show ?thesis by simp
    next
      case True
      define s1' where "s1' = emit (Call ''camera.getWorldDirection'') s1"
      have s1': "rig s1' = rig s" "animateOnly s1' = animateOnly s" "lifecycle s1' = lifecycle s"
        using s1 by (simp_all add: s1'_def view_defs plain_defs)
      show ?thesis
      proof (cases "scheduleAnimate s1'")
        case (Inl p)
        then have "after (animate enough xrFrame s) = s1'"
          using True a by (cases p) (auto simp: andThen_def s1'_def dest: scheduleAnimate_Inl)
        with s1' show ?thesis by simp
      next
        case (Inr s2)
        then have "after (animate enough xrFrame s) = after (rest s2)"
          using True a by (simp add: andThen_def s1'_def)
        with rest [of s2] scheduleAnimate_Inr [OF Inr] s1' show ?thesis by simp
      qed
    qed
  qed
  then show
    "rig (after (animate enough xrFrame s)) = rig s"
    "animateOnly s \<longrightarrow> animateOnly (after (animate enough xrFrame s))"
    "lifecycle (after (animate enough xrFrame s)) = lifecycle s"
    by simp_all
qed

lemma handleResize_after:
  "rig (after (handleResize s)) = rig s"
  "animateOnly (after (handleResize s)) = animateOnly s"
  "lifecycle (after (handleResize s)) = lifecycle s"
  by (simp_all add: handleResize_def Let_def view_defs plain_defs)

lemma sessionSupportResolved_views:
  "rig (sessionSupportResolved b s) = rig s"
  "animateOnly (sessionSupportResolved b s) = animateOnly s"
  "lifecycle (sessionSupportResolved b s) = lifecycle s"
  by (simp_all add: sessionSupportResolved_def addCardboardButton_def view_defs plain_defs)

subsection \<open>Where the deactivate handler is subscribed, its objects exist\<close>

text \<open>
  The window subscriptions are made at the end of init, after the controls and the
  renderer are created, and reset removes them in the same step in which it drops the
  controls. So in every state the event loop can reach, a subscribed deactivate handler
  finds the controls and the renderer.
\<close>

lemma callback_wired:
  assumes "subscribed s \<longrightarrow> equipped s"
  shows "subscribed (after (callback fn a b s)) \<longrightarrow> equipped (after (callback fn a b s))"
proof (cases fn)
  case Init
  with assms init_after(7) [of s] show ?thesis by simp
next
  case HandleResize
  with assms wired_rig [OF handleResize_after(1), of s] show ?thesis by simp
next
  case HandleVrDisplayActivate
  with assms wired_rig [OF handleVrDisplayActivate_after(1), of s] show ?thesis by simp
next
  case HandleVrDisplayDeactivate
  with assms wired_rig [OF handleVrDisplayDeactivate_after(1), of s] show ?thesis by simp
next
  case Animate
  with assms wired_rig [OF animate_after(1), of a b s] show ?thesis by simp
qed

lemma wired_absorb:
  "(subscribed (absorb r) \<longrightarrow> equipped (absorb r)) = (subscribed (after r) \<longrightarrow> equipped (after r))"
  by (rule wired_rig) simp

lemma dispatch_wired:
  "subscribed s \<longrightarrow> equipped s \<Longrightarrow> subscribed (dispatch ty ls s) \<longrightarrow> equipped (dispatch ty ls s)"
proof (induction ls arbitrary: s)
  case Nil
  then show ?case by simp
next
  case (Cons l ls)
  obtain ty' fn where l: "l = (ty', fn)" by (cases l)
  have "subscribed (absorb (callback fn False True s)) \<longrightarrow> equipped (absorb (callback fn False True s))"
    using callback_wired [OF Cons.prems] by (simp add: wired_absorb)
  with Cons.prems have "subscribed (if ty' = ty then absorb (callback fn False True s) else s)
    \<longrightarrow> equipped (if ty' = ty then absorb (callback fn False True s) else s)"
    by simp
  from Cons.IH [OF this] l show ?case by simp
qed

lemma step_wired:
  assumes "subscribed s \<longrightarrow> equipped s"
  shows "subscribed (step ev s) \<longrightarrow> equipped (step ev s)"
proof (cases ev)
  case (PlayerEvent ty)
  with dispatch_wired [OF assms] show ?thesis by (simp add: step_def)
next
  case (WindowEvent ty)
  with dispatch_wired [OF assms] show ?thesis by (simp add: step_def)
next
  case (SessionEndEvent k)
  have "rig (consoleLog ''session ended'' s) = rig s"
    by (simp add: view_defs plain_defs)
  from wired_rig [OF this] assms
  have "subscribed (consoleLog ''session ended'' s) \<longrightarrow> equipped (consoleLog ''session ended'' s)"
    by simp
  from dispatch_wired [OF this] SessionEndEvent assms show ?thesis
    by (simp add: step_def onSessionEnd_def Let_def)
next
  case (FrameDue c h enough)
  define s' where "s' = s\<lparr>pendingFrames :=
    filter (\<lambda>(c', h', _). \<not> (c' = c \<and> h' = h)) (pendingFrames s)\<rparr>"
  have "rig s' = rig s" by (simp add: s'_def view_defs)
  from wired_rig [OF this] assms have "subscribed s' \<longrightarrow> equipped s'" by simp
  from callback_wired [OF this] FrameDue assms show ?thesis
    by (simp add: step_def frameDue_def s'_def wired_absorb split: list.splits)
next
  case (ProbeSettled r)
  have "rig (unhandled (s\<lparr>probes := probes s - 1\<rparr>)) = rig s"
    "rig (sessionSupportResolved b (s\<lparr>probes := probes s - 1\<rparr>)) = rig s" for b
    by (simp_all add: sessionSupportResolved_views) (simp_all add: view_defs plain_defs)
  from this [THEN wired_rig] ProbeSettled assms show ?thesis
    by (simp add: step_def split: option.splits)
next
  case (SessionSettled r)
  have "rig (unhandled (s\<lparr>sessionRequests := sessionRequests s - 1\<rparr>)) = rig s"
    "rig (after (sessionGranted k (s\<lparr>sessionRequests := sessionRequests s - 1\<rparr>))) = rig s" for k
    by (simp_all add: sessionGranted_after) (simp_all add: view_defs plain_defs)
  from this [THEN wired_rig] SessionSettled assms show ?thesis
    by (simp add: step_def wired_absorb split: option.splits)
next
  case (ReferenceSpaceSettled r)
  have "rig (unhandled (s\<lparr>referenceSpaceRequests := referenceSpaceRequests s - 1\<rparr>)) = rig s"
    "rig (after (referenceSpaceGranted k (s\<lparr>referenceSpaceRequests := referenceSpaceRequests s - 1\<rparr>))) = rig s" for k
    by (simp_all add: referenceSpaceGranted_after) (simp_all add: view_defs plain_defs)
  from this [THEN wired_rig] ReferenceSpaceSettled assms show ?thesis
    by (simp add: step_def wired_absorb split: option.splits)
next
  case (EndSettled r)
  have "rig (after (endSettled r (s\<lparr>endRequests := endRequests s - 1\<rparr>))) = rig s"
    by (simp add: endSettled_after) (simp add: view_defs)
  from this [THEN wired_rig] EndSettled assms show ?thesis
    by (simp add: step_def wired_absorb)
next
  case ResetCalled
  show ?thesis
  proof (cases s rule: reset_cases)
    case idle
    with assms ResetCalled show ?thesis by (simp add: step_def absorb_def)
  next
    case (thrown e s1)
    with ResetCalled show ?thesis by (simp add: step_def wired_absorb)
  next
    case (finished s1)
    with ResetCalled show ?thesis by (simp add: step_def wired_absorb)
  qed
qed

lemma reachable_wired: "reachable s \<Longrightarrow> subscribed s \<longrightarrow> equipped s"
proof (induction rule: reachable.induct)
  case (reach_start nav)
  show ?case by (simp add: constructed_def subscribed_def playerOn_def emit_def)
next
  case (reach_step s ev)
  from step_wired [OF reach_step.IH] show ?case .
qed


subsection \<open>Between operations, an active flag has a session\<close>

lemma frameDue_views:
  assumes "animateOnly s"
  shows "lifecycle (frameDue c h enough s) = lifecycle s" "animateOnly (frameDue c h enough s)"
proof -
  define s' where "s' = s\<lparr>pendingFrames :=
    filter (\<lambda>(c', h', _). \<not> (c' = c \<and> h' = h)) (pendingFrames s)\<rparr>"
  have s': "lifecycle s' = lifecycle s" "animateOnly s'"
    using assms by (simp_all add: s'_def view_defs list_all_iff)
  have "lifecycle (frameDue c h enough s) = lifecycle s \<and> animateOnly (frameDue c h enough s)"
  proof (cases "filter (\<lambda>(c', h', _). c' = c \<and> h' = h) (pendingFrames s)")
    case Nil
    with assms show ?thesis by (simp add: frameDue_def)
  next
    case (Cons x xs)
    obtain c' h' fn where x: "x = (c', h', fn)" by (cases x)
    have "x \<in> set (filter (\<lambda>(c', h', _). c' = c \<and> h' = h) (pendingFrames s))"
      using Cons by simp
    then have "x \<in> set (pendingFrames s)" by simp
    with assms x have "fn = Animate" by (auto simp: animateOnly_def list_all_iff)
    with Cons x have "frameDue c h enough s = absorb (animate enough (c \<noteq> PlayerClock) s')"
      by (simp add: frameDue_def s'_def)
    with s' animate_after(2,3) [where s = s' and enough = enough and xrFrame = "c \<noteq> PlayerClock"] show ?thesis by simp
  qed
  then show "lifecycle (frameDue c h enough s) = lifecycle s" "animateOnly (frameDue c h enough s)"
    by simp_all
qed

lemma perform_paired:
  assumes "xrActive s \<longrightarrow> currentSession s \<noteq> None" "quiet s" "animateOnly s"
  shows "(xrActive (perform ope s) \<longrightarrow> currentSession (perform ope s) \<noteq> None)
    \<and> quiet (perform ope s) \<and> animateOnly (perform ope s)"
proof (cases ope)
  case DoInit
  with assms init_after(1-6) [of s] show ?thesis
    by (simp add: quiet_def absorb_fields)
next
  case (DoProbe r)
  have "lifecycle (unhandled (s\<lparr>probes := probes s - 1\<rparr>)) = lifecycle s"
    "animateOnly (unhandled (s\<lparr>probes := probes s - 1\<rparr>)) = animateOnly s"
    "lifecycle (sessionSupportResolved b (s\<lparr>probes := probes s - 1\<rparr>)) = lifecycle s"
    "animateOnly (sessionSupportResolved b (s\<lparr>probes := probes s - 1\<rparr>)) = animateOnly s" for b
    by (simp_all add: sessionSupportResolved_views) (simp_all add: view_defs plain_defs)
  with assms DoProbe show ?thesis
    by (simp add: step_def quiet_def lifecycle_fields split: option.splits)
next
  case DoReset
  from assms DoReset show ?thesis
    by (cases s rule: reset_cases) (simp_all add: quiet_def lifecycle_fields)
next
  case (DoActivate g r)
  define s1 where "s1 = absorb (handleVrDisplayActivate s)"
  have a1: "animateOnly s1"
    using assms handleVrDisplayActivate_after(2) [of s] by (simp add: s1_def)
  from handleVrDisplayActivate_after(3) [of s]
  have "lifecycle s1 = lifecycle s \<or> lifecycle s1 =
      (xrActive s, currentSession s, Suc (sessionRequests s), referenceSpaceRequests s, endRequests s)"
    by (simp add: s1_def)
  then show ?thesis
  proof
    assume l: "lifecycle s1 = lifecycle s"
    with assms a1 have "step (ReferenceSpaceSettled r) (step (SessionSettled g) s1) = s1"
      by (simp add: step_def quiet_def lifecycle_fields)
    with l assms a1 DoActivate show ?thesis
      by (simp add: s1_def [symmetric] quiet_def lifecycle_fields)
  next
    assume l: "lifecycle s1 =
      (xrActive s, currentSession s, Suc (sessionRequests s), referenceSpaceRequests s, endRequests s)"
    define s1' where "s1' = s1\<lparr>sessionRequests := sessionRequests s1 - 1\<rparr>"
    have l': "lifecycle s1' = lifecycle s" "animateOnly s1'"
      using l a1 assms by (simp_all add: s1'_def view_defs quiet_def)
    show ?thesis
    proof (cases g)
      case None
      then have "step (SessionSettled g) s1 = unhandled s1'"
        using l by (simp add: step_def s1'_def lifecycle_fields)
      moreover have "lifecycle (unhandled s1') = lifecycle s" "animateOnly (unhandled s1')"
        using l' by (simp_all add: view_defs plain_defs)
      ultimately have "lifecycle (step (SessionSettled g) s1) = lifecycle s"
        "animateOnly (step (SessionSettled g) s1)"
        "step (ReferenceSpaceSettled r) (step (SessionSettled g) s1) = step (SessionSettled g) s1"
        using assms by (simp_all add: step_def [of "ReferenceSpaceSettled r"] quiet_def lifecycle_fields)
      with assms DoActivate show ?thesis
        by (simp add: s1_def [symmetric] quiet_def lifecycle_fields)
    next
      case (Some k)
      define s2 where "s2 = absorb (sessionGranted k s1')"
      have s2: "step (SessionSettled g) s1 = s2"
        using l Some by (simp add: step_def s1'_def s2_def lifecycle_fields)
      have a2: "animateOnly s2"
        using l' sessionGranted_after(2) [where k = k and s = s1'] by (simp add: s2_def)
      from sessionGranted_after(3) [where k = k and s = s1'] l'
      have "lifecycle s2 = lifecycle s \<or> lifecycle s2 =
          (xrActive s, Some k, sessionRequests s, Suc (referenceSpaceRequests s), endRequests s)"
        by (simp add: s2_def lifecycle_fields)
      then show ?thesis
      proof
        assume m: "lifecycle s2 = lifecycle s"
        with assms have "step (ReferenceSpaceSettled r) s2 = s2"
          by (simp add: step_def quiet_def lifecycle_fields)
        with m a2 s2 assms DoActivate show ?thesis
          by (simp add: s1_def [symmetric] quiet_def lifecycle_fields)
      next
        assume m: "lifecycle s2 =
          (xrActive s, Some k, sessionRequests s, Suc (referenceSpaceRequests s), endRequests s)"
        define s2' where "s2' = s2\<lparr>referenceSpaceRequests := referenceSpaceRequests s2 - 1\<rparr>"
        have m': "lifecycle s2' =
            (xrActive s, Some k, sessionRequests s, referenceSpaceRequests s, endRequests s)"
          "animateOnly s2'"
          using m a2 by (simp_all add: s2'_def view_defs)
        have "lifecycle (step (ReferenceSpaceSettled r) s2) =
            (xrActive s \<or> r \<noteq> None, Some k, sessionRequests s, referenceSpaceRequests s, endRequests s)
          \<and> animateOnly (step (ReferenceSpaceSettled r) s2)"
        proof (cases r)
          case None
          then have "step (ReferenceSpaceSettled r) s2 = unhandled s2'"
            using m by (simp add: step_def s2'_def lifecycle_fields)
          moreover have "lifecycle (unhandled s2') = lifecycle s2'" "animateOnly (unhandled s2') = animateOnly s2'"
            by (simp_all add: view_defs plain_defs)
          ultimately show ?thesis using m' None by simp
        next
          case (Some sp)
          then have "step (ReferenceSpaceSettled r) s2 = absorb (referenceSpaceGranted sp s2')"
            using m by (simp add: step_def s2'_def lifecycle_fields)
          with m' referenceSpaceGranted_after(2,3) [where r = sp and s = s2'] Some show ?thesis
            by (simp add: lifecycle_fields)
        qed
        with s2 assms DoActivate show ?thesis
          by (simp add: s1_def [symmetric] quiet_def lifecycle_fields)
      qed
    qed
  qed
next
  case (DoDeactivate r)
  define s1 where "s1 = absorb (handleVrDisplayDeactivate s)"
  have a1: "animateOnly s1"
    using assms handleVrDisplayDeactivate_after(2) [of s] by (simp add: s1_def)
  from handleVrDisplayDeactivate_after(3) [of s]
  have "lifecycle s1 = lifecycle s \<or> lifecycle s1 =
      (xrActive s, currentSession s, sessionRequests s, referenceSpaceRequests s, Suc (endRequests s))"
    by (simp add: s1_def)
  then show ?thesis
  proof
    assume l: "lifecycle s1 = lifecycle s"
    with assms have "step (EndSettled r) s1 = s1"
      by (simp add: step_def quiet_def lifecycle_fields)
    with l assms a1 DoDeactivate show ?thesis
      by (simp add: s1_def [symmetric] quiet_def lifecycle_fields)
  next
    assume l: "lifecycle s1 =
      (xrActive s, currentSession s, sessionRequests s, referenceSpaceRequests s, Suc (endRequests s))"
    define s1' where "s1' = s1\<lparr>endRequests := endRequests s1 - 1\<rparr>"
    have l': "lifecycle s1' = lifecycle s" "animateOnly s1'"
      using l a1 assms by (simp_all add: s1'_def view_defs quiet_def)
    have "step (EndSettled r) s1 = absorb (endSettled r s1')"
      using l by (simp add: step_def s1'_def lifecycle_fields)
    with l' endSettled_after(2,3) [where r = r and s = s1'] assms DoDeactivate show ?thesis
      by (simp add: s1_def [symmetric] quiet_def lifecycle_fields)
  qed
next
  case (DoFrame c h enough)
  with assms frameDue_views [of s c h enough] show ?thesis
    by (simp add: step_def quiet_def lifecycle_fields)
qed

lemma attained_paired:
  "attained s \<Longrightarrow> (xrActive s \<longrightarrow> currentSession s \<noteq> None) \<and> quiet s \<and> animateOnly s"
proof (induction rule: attained.induct)
  case (attained_start nav)
  show ?case by (simp add: constructed_def quiet_def animateOnly_def playerOn_def emit_def)
next
  case (attained_perform s ope)
  then show ?case using perform_paired [of s ope] by blast
qed

subsection \<open>Runs of the event loop, and the console\<close>

lemma attained_performAll: "attained s \<Longrightarrow> attained (performAll opes s)"
  by (induction opes arbitrary: s) (auto intro: attained.intros)

lemma reachable_run: "reachable s \<Longrightarrow> reachable (run evs s)"
  by (induction evs arbitrary: s) (auto intro: reachable.intros)

lemma logged_append: "logged (xs @ ys) = logged xs @ logged ys"
  by (induction xs rule: logged.induct) simp_all

lemma cancelPending_returns:
  "currentSession s \<noteq> None \<Longrightarrow> \<exists>s1. cancelPending s = Inr s1"
  by (auto simp: cancelPending_def cancelAnimationFrame_def split: option.splits)

lemma cancelPending_more:
  "cancelPending s = Inr s1 \<Longrightarrow>
     logged (effects s1) = logged (effects s) \<and> renderer s1 = renderer s
     \<and> currentSession s1 = currentSession s \<and> rendererSession s1 = rendererSession s"
  by (auto simp: cancelPending_def cancelAnimationFrame_def plain_defs logged_append
      split: option.splits if_splits)

lemmas example_eqs = activeExample_eq supportedExample_eq

lemma rejectedExample_eq:
  "rejectedExample =
     supportedExample
       \<lparr>controls3d := Some False, pendingFrames := [],
        effects := effects supportedExample @
          [CancelFrame PlayerClock 1, Call ''controls3d.disable'', RequestSession],
        uncaught := [UnhandledRejection]\<rparr>"
  unfolding rejectedExample_def supportedExample_eq
  by (simp add: run_simps cong: andThen_cong let_weak_cong)

lemma doubledExample_eq:
  "doubledExample =
     activeExample
       \<lparr>xrActive := False, currentSession := None, animationFrameId := Some 4,
        controls3d := Some True, rendererSession := None,
        pendingFrames := [(PlayerClock, 3, Animate), (PlayerClock, 4, Animate)],
        nextHandle := 5,
        effects := effects activeExample @
          [CancelFrame (SessionClock 1) 2, EndSession 1, ConsoleLog ''session ended'',
           CancelFrame (SessionClock 1) 2, EndSession 1,
           SetSession None, Call ''controls3d.enable'', Trigger ''xrSessionDeactivated'',
           ScheduleFrame PlayerClock 3 Animate,
           SetSession None, Call ''controls3d.enable'', Trigger ''xrSessionDeactivated'',
           ScheduleFrame PlayerClock 4 Animate]\<rparr>"
  unfolding doubledExample_def example_eqs
  by (simp add: run_simps cong: andThen_cong let_weak_cong)

lemma supportedExample_reachable: "reachable supportedExample"
  unfolding supportedExample_def by (intro reachable_run reachable.intros)

lemma activeExample_reachable: "reachable activeExample"
  unfolding activeExample_def by (intro reachable_run supportedExample_reachable)

subsection \<open>The window holds only the subscriptions of init\<close>

text \<open>
  Only init adds subscriptions to the window and only reset removes them, so in every
  state the event loop can reach a \<^verbatim>\<open>vrdisplaydeactivate\<close> event has one listener at most,
  the deactivate handler.
\<close>

lemma reset_prefix_fields:
  "renderedCanvas (resetVideoStyle (resetChildren (resetListeners (resetControls s)))) = renderedCanvas s"
  "pendingFrames (resetVideoStyle (resetChildren (resetListeners (resetControls s)))) = pendingFrames s"
  "animationFrameId (resetVideoStyle (resetChildren (resetListeners (resetControls s)))) = animationFrameId s"
  "rendererSession (resetVideoStyle (resetChildren (resetListeners (resetControls s)))) = rendererSession s"
  "windowListeners (resetVideoStyle (resetChildren (resetListeners (resetControls s)))) =
     removeAll (''vrdisplaydeactivate'', HandleVrDisplayDeactivate)
       (removeAll (''vrdisplayactivate'', HandleVrDisplayActivate)
         (removeAll (''vrdisplaypresentchange'', HandleResize)
           (removeAll (''resize'', HandleResize) (windowListeners s))))"
  by (simp_all add: resetControls_def resetChildren_def Let_def plain_defs split: option.splits)

lemma resetCanvas_returns:
  "renderedCanvas s \<noteq> Some False \<Longrightarrow> \<exists>y. resetCanvas s = Inr y"
  by (auto simp: resetCanvas_def split: option.splits)

lemma resetCanvas_fields:
  "resetCanvas s = Inr y \<Longrightarrow>
     windowListeners y = windowListeners s \<and> pendingFrames y = pendingFrames s
     \<and> animationFrameId y = animationFrameId s \<and> rendererSession y = rendererSession s"
  by (auto simp: resetCanvas_def plain_defs split: option.splits if_splits)

lemma cancelPending_fields:
  "cancelPending s = Inr z \<Longrightarrow>
     windowListeners z = windowListeners s \<and> rendererSession z = rendererSession s
     \<and> (\<forall>h fn. animationFrameId s = Some h \<longrightarrow> h \<noteq> 0 \<longrightarrow> xrActive s \<longrightarrow>
           currentSession s = Some k \<longrightarrow> (SessionClock k, h, fn) \<notin> set (pendingFrames z))"
  by (auto simp: cancelPending_def cancelAnimationFrame_def plain_defs
      split: option.splits if_splits)

lemma ownListeners_rig: "rig s' = rig s \<Longrightarrow> ownListeners s' = ownListeners s"
  by (simp add: rig_def ownListeners_def)

lemma ownListeners_cong:
  "windowListeners s' = windowListeners s \<Longrightarrow> ownListeners s' = ownListeners s"
  by (simp add: ownListeners_def)

lemma addEventListener_own:
  "(ty, fn) \<in> set windowSubscriptions \<Longrightarrow> ownListeners s \<Longrightarrow>
     ownListeners (addEventListener ty fn s)"
  by (auto simp: ownListeners_def addEventListener_def emit_def)

lemma initWire_own: "ownListeners s \<Longrightarrow> ownListeners (initWire s)"
proof -
  assume a: "ownListeners s"
  have "ownListeners (playerOn ''fullscreenchange'' HandleResize s)"
    using a by (simp add: ownListeners_def plain_defs)
  then show ?thesis
    unfolding initWire_def
    by (intro addEventListener_own) (simp_all add: windowSubscriptions_def)
qed

lemma reset_listeners:
  "windowListeners (after (reset s)) = windowListeners s
   \<or> windowListeners (after (reset s)) =
       removeAll (''vrdisplaydeactivate'', HandleVrDisplayDeactivate)
         (removeAll (''vrdisplayactivate'', HandleVrDisplayActivate)
           (removeAll (''vrdisplaypresentchange'', HandleResize)
             (removeAll (''resize'', HandleResize) (windowListeners s))))"
proof (cases "initialized s")
  case False
  then show ?thesis by (simp add: reset_def)
next
  case True
  define x where "x = resetVideoStyle (resetChildren (resetListeners (resetControls s)))"
  note xf = reset_prefix_fields(5) [of s, folded x_def]
  have r: "reset s = andThen (resetCanvas x)
      (\<lambda>s1. andThen (cancelPending s1) (\<lambda>s2. Inr (setInitialized False s2)))"
    using True by (simp add: reset_def x_def)
  have "windowListeners (after (reset s)) = windowListeners x"
  proof (cases "resetCanvas x")
    case (Inl p)
    obtain e s1 where p: "p = (e, s1)" by (cases p)
    with Inl have "s1 = x" by (auto dest: resetCanvas_Inl)
    with Inl p r show ?thesis by (simp add: andThen_def)
  next
    case (Inr y)
    note yf = resetCanvas_fields [OF Inr]
    show ?thesis
    proof (cases "cancelPending y")
      case (Inl p)
      obtain e s1 where p: "p = (e, s1)" by (cases p)
      with Inl have "s1 = y" by (auto dest: cancelPending_Inl)
      with Inl p r yf \<open>resetCanvas x = Inr y\<close> show ?thesis by (simp add: andThen_def)
    next
      case (Inr z)
      from cancelPending_fields [OF Inr] yf r Inr \<open>resetCanvas x = Inr y\<close> show ?thesis
        by (simp add: andThen_def setInitialized_def emit_def)
    qed
  qed
  with xf show ?thesis by simp
qed

lemma reset_own: "ownListeners s \<Longrightarrow> ownListeners (after (reset s))"
  using reset_listeners [of s] by (auto simp: ownListeners_def distinct_removeAll)

lemma init_own:
  assumes "ownListeners s"
  shows "ownListeners (after (init s))"
proof (cases "reset s")
  case (Inl p)
  then have "after (init s) = after (reset s)" by (simp add: init_def andThen_def)
  with reset_own [OF assms] show ?thesis by simp
next
  case (Inr s0)
  with reset_own [OF assms] have s0: "ownListeners s0" by simp
  define s1 where "s1 = initProbe (initResources s0)"
  have s1: "ownListeners s1"
    using s0 by (simp add: s1_def ownListeners_cong [of "initProbe _"] ownListeners_cong [of "initResources _"])
  have i: "init s = (if \<not> navigatorXr s1 then Inl (TypeError, s1)
      else andThen (scheduleAnimate (completeInitialization s1)) (\<lambda>s2. Inr (initWire s2)))"
    using Inr by (simp add: init_def andThen_def s1_def Let_def)
  show ?thesis
  proof (cases "navigatorXr s1")
    case False
    with i s1 show ?thesis by simp
  next
    case True
    have c: "ownListeners (completeInitialization s1)"
      using s1 by (simp add: ownListeners_cong [of "completeInitialization _"])
    show ?thesis
    proof (cases "scheduleAnimate (completeInitialization s1)")
      case (Inl p)
      obtain e s2 where p: "p = (e, s2)" by (cases p)
      with Inl have "s2 = completeInitialization s1" by (auto dest: scheduleAnimate_Inl)
      with Inl p i True c show ?thesis by (simp add: andThen_def)
    next
      case (Inr s2)
      from scheduleAnimate_Inr [OF Inr] c have "ownListeners s2"
        by (simp add: ownListeners_rig [of s2 "completeInitialization s1"])
      with Inr i True show ?thesis by (simp add: andThen_def initWire_own)
    qed
  qed
qed

lemma callback_own:
  assumes "ownListeners s"
  shows "ownListeners (after (callback fn a b s))"
proof (cases fn)
  case Init
  with init_own [OF assms] show ?thesis by simp
next
  case HandleResize
  with assms ownListeners_rig [OF handleResize_after(1), of s] show ?thesis by simp
next
  case HandleVrDisplayActivate
  with assms ownListeners_rig [OF handleVrDisplayActivate_after(1), of s] show ?thesis by simp
next
  case HandleVrDisplayDeactivate
  with assms ownListeners_rig [OF handleVrDisplayDeactivate_after(1), of s] show ?thesis by simp
next
  case Animate
  with assms ownListeners_rig [OF animate_after(1), of a b s] show ?thesis by simp
qed

lemma own_absorb: "ownListeners (absorb r) = ownListeners (after r)"
  by (rule ownListeners_rig) simp

lemma dispatch_own: "ownListeners s \<Longrightarrow> ownListeners (dispatch ty ls s)"
proof (induction ls arbitrary: s)
  case Nil
  then show ?case by simp
next
  case (Cons l ls)
  obtain ty' fn where l: "l = (ty', fn)" by (cases l)
  have "ownListeners (absorb (callback fn False True s))"
    using callback_own [OF Cons.prems] by (simp add: own_absorb)
  with Cons.prems have "ownListeners (if ty' = ty then absorb (callback fn False True s) else s)"
    by simp
  from Cons.IH [OF this] l show ?case by simp
qed

lemma step_own:
  assumes "ownListeners s"
  shows "ownListeners (step ev s)"
proof (cases ev)
  case (PlayerEvent ty)
  with dispatch_own [OF assms] show ?thesis by (simp add: step_def)
next
  case (WindowEvent ty)
  with dispatch_own [OF assms] show ?thesis by (simp add: step_def)
next
  case (SessionEndEvent k)
  have "ownListeners (consoleLog ''session ended'' s)"
    using assms by (simp add: ownListeners_def plain_defs)
  from dispatch_own [OF this] SessionEndEvent assms show ?thesis
    by (simp add: step_def onSessionEnd_def Let_def)
next
  case (FrameDue c h enough)
  define s' where "s' = s\<lparr>pendingFrames :=
    filter (\<lambda>(c', h', _). \<not> (c' = c \<and> h' = h)) (pendingFrames s)\<rparr>"
  have "ownListeners s'" using assms by (simp add: s'_def ownListeners_def)
  from callback_own [OF this] FrameDue assms show ?thesis
    by (simp add: step_def frameDue_def s'_def own_absorb split: list.splits)
next
  case (ProbeSettled r)
  have "rig (unhandled (s\<lparr>probes := probes s - 1\<rparr>)) = rig s"
    "rig (sessionSupportResolved b (s\<lparr>probes := probes s - 1\<rparr>)) = rig s" for b
    by (simp_all add: sessionSupportResolved_views) (simp_all add: view_defs plain_defs)
  from this [THEN ownListeners_rig] ProbeSettled assms show ?thesis
    by (simp add: step_def split: option.splits)
next
  case (SessionSettled r)
  have "rig (unhandled (s\<lparr>sessionRequests := sessionRequests s - 1\<rparr>)) = rig s"
    "rig (after (sessionGranted k (s\<lparr>sessionRequests := sessionRequests s - 1\<rparr>))) = rig s" for k
    by (simp_all add: sessionGranted_after) (simp_all add: view_defs plain_defs)
  from this [THEN ownListeners_rig] SessionSettled assms show ?thesis
    by (simp add: step_def own_absorb split: option.splits)
next
  case (ReferenceSpaceSettled r)
  have "rig (unhandled (s\<lparr>referenceSpaceRequests := referenceSpaceRequests s - 1\<rparr>)) = rig s"
    "rig (after (referenceSpaceGranted k (s\<lparr>referenceSpaceRequests := referenceSpaceRequests s - 1\<rparr>))) = rig s" for k
    by (simp_all add: referenceSpaceGranted_after) (simp_all add: view_defs plain_defs)
  from this [THEN ownListeners_rig] ReferenceSpaceSettled assms show ?thesis
    by (simp add: step_def own_absorb split: option.splits)
next
  case (EndSettled r)
  have "rig (after (endSettled r (s\<lparr>endRequests := endRequests s - 1\<rparr>))) = rig s"
    by (simp add: endSettled_after) (simp add: view_defs)
  from this [THEN ownListeners_rig] EndSettled assms show ?thesis
    by (simp add: step_def own_absorb)
next
  case ResetCalled
  with reset_own [OF assms] show ?thesis by (simp add: step_def own_absorb)
qed

lemma reachable_own: "reachable s \<Longrightarrow> ownListeners s"
proof (induction rule: reachable.induct)
  case (reach_start nav)
  show ?case by (simp add: constructed_def ownListeners_def playerOn_def emit_def)
next
  case (reach_step s ev)
  from step_own [OF reach_step.IH] show ?case .
qed

lemma dispatch_append: "dispatch ty (xs @ ys) s = dispatch ty ys (dispatch ty xs s)"
  by (induction xs arbitrary: s) auto

lemma dispatch_others: "\<forall>x\<in>set ls. fst x \<noteq> ty \<Longrightarrow> dispatch ty ls s = s"
  by (induction ls arbitrary: s) auto

lemma dispatch_deactivate:
  assumes "distinct ls" "set ls \<subseteq> set windowSubscriptions"
    "(''vrdisplaydeactivate'', HandleVrDisplayDeactivate) \<in> set ls"
  shows "dispatch ''vrdisplaydeactivate'' ls s = absorb (handleVrDisplayDeactivate s)"
proof -
  from assms(3) obtain xs ys where
    l: "ls = xs @ (''vrdisplaydeactivate'', HandleVrDisplayDeactivate) # ys"
    by (auto dest: split_list)
  with assms(1) have n: "(''vrdisplaydeactivate'', HandleVrDisplayDeactivate) \<notin> set xs"
    "(''vrdisplaydeactivate'', HandleVrDisplayDeactivate) \<notin> set ys"
    by auto
  have o: "\<forall>x\<in>set xs. fst x \<noteq> ''vrdisplaydeactivate''"
    "\<forall>x\<in>set ys. fst x \<noteq> ''vrdisplaydeactivate''"
    using assms(2) n l by (auto simp: windowSubscriptions_def)
  show ?thesis
    by (simp add: l dispatch_append dispatch_others [OF o(1)] dispatch_others [OF o(2)])
qed

lemma cancelPending_exact:
  "currentSession s = Some k \<Longrightarrow>
     cancelPending s =
       Inr (case animationFrameId s of
              None \<Rightarrow> s
            | Some h \<Rightarrow>
                if h \<noteq> 0
                then unschedule (if xrActive s then SessionClock k else PlayerClock) h s
                else s)"
  by (simp add: cancelPending_def cancelAnimationFrame_def split: option.splits)

section \<open>The frame scheduler\<close>

text \<open>
  C1. Every call of \<open>requestAnimationFrame\<close> and of \<open>cancelAnimationFrame\<close> goes to the clock
  that \<open>activeClock\<close> names in the state of that very call: the session's clock exactly when
  \<open>xrActive\<close> is true then, the player's clock otherwise. The call reads nothing else, so
  nothing is remembered from one call to the next. (With \<open>xrActive\<close> true and no session
  handle, the call on the session is a TypeError.)
\<close>

theorem scheduler_dispatch:
  "requestAnimationFrame fn s =
     (case activeClock s of None \<Rightarrow> Inl (TypeError, s) | Some c \<Rightarrow> Inr (schedule c fn s))
   \<and> cancelAnimationFrame h s =
     (case activeClock s of None \<Rightarrow> Inl (TypeError, s) | Some c \<Rightarrow> Inr (unschedule c h s))
   \<and> (activeClock s = Some PlayerClock) = (\<not> xrActive s)
   \<and> (activeClock s = map_option SessionClock (currentSession s)) = xrActive s"
  by (auto simp: requestAnimationFrame_def cancelAnimationFrame_def activeClock_def
      split: option.splits)

text \<open>
  Two calls in a row with a session activated in between: the first lands on the player's
  clock, the second on the clock of session \<open>1\<close>.
\<close>

theorem scheduler_dispatch_witness:
  "requestAnimationFrame Animate supportedExample
     = Inr (schedule PlayerClock Animate supportedExample)
   \<and> requestAnimationFrame Animate
       ((snd (schedule PlayerClock Animate supportedExample))
          \<lparr>xrActive := True, currentSession := Some 1\<rparr>)
     = Inr (schedule (SessionClock 1) Animate
         ((snd (schedule PlayerClock Animate supportedExample))
            \<lparr>xrActive := True, currentSession := Some 1\<rparr>))"
  using scheduler_dispatch [of Animate supportedExample]
    scheduler_dispatch [of Animate
      "(snd (schedule PlayerClock Animate supportedExample))
         \<lparr>xrActive := True, currentSession := Some 1\<rparr>"]
  by (simp add: activeClock_def supportedExample_eq schedule_def emit_def)

section \<open>The render step\<close>

text \<open>
  C2. When \<open>initialized\<close> is false, the render step returns at once: it throws nothing and
  leaves the whole state as it was, so no frame is scheduled (\<open>pendingFrames\<close> and \<open>effects\<close>
  are among the fields left alone). When the clock calls such a frame back, the frame is
  consumed and nothing takes its place.
\<close>

theorem animate_uninitialized:
  "\<not> initialized s \<Longrightarrow>
     animate enough xrFrame s = Inr s
     \<and> absorb (callback Animate enough xrFrame
          (s\<lparr>pendingFrames := filter (\<lambda>(c', h', _). \<not> (c' = c \<and> h' = h)) (pendingFrames s)\<rparr>))
       = s\<lparr>pendingFrames := filter (\<lambda>(c', h', _). \<not> (c' = c \<and> h' = h)) (pendingFrames s)\<rparr>"
  by (simp add: animate_def absorb_def)

theorem animate_uninitialized_witness:
  "\<not> initialized (constructed True)
   \<and> animate True False (constructed True) = Inr (constructed True)"
  using animate_uninitialized [of "constructed True" True False]
  by (simp add: constructed_def playerOn_def emit_def)

section \<open>The capability guard\<close>

text \<open>
  C10. When \<open>xrSupported\<close> is false, the activate handler and the deactivate handler both
  return at once and leave the whole state as it was.
\<close>

theorem handlers_guarded:
  "\<not> xrSupported s \<Longrightarrow>
     handleVrDisplayActivate s = Inr s \<and> handleVrDisplayDeactivate s = Inr s"
  by (simp add: handleVrDisplayActivate_def handleVrDisplayDeactivate_def)

theorem handlers_guarded_witness:
  "\<not> xrSupported (constructed True)
   \<and> handleVrDisplayActivate (constructed True) = Inr (constructed True)
   \<and> handleVrDisplayDeactivate (constructed True) = Inr (constructed True)"
  using handlers_guarded [of "constructed True"]
  by (simp add: constructed_def playerOn_def emit_def)

section \<open>The session state machine\<close>

text \<open>
  C3, as the code has it. The claim is that \<open>currentSession\<close> is non-null if and only if
  \<open>xrActive\<close> is true, in every state reached by init, reset, activate and deactivate, each
  activate and deactivate taken together with the settlement of its promises. One half
  holds in all those states (\<open>attained\<close>, which also lets capability probes settle and
  frames be called back): whenever \<open>xrActive\<close> is true, \<open>currentSession\<close> is non-null.
\<close>

theorem active_has_session:
  "attained s \<Longrightarrow> xrActive s \<Longrightarrow> currentSession s \<noteq> None"
  using attained_paired by blast

theorem active_has_session_witness:
  "attained (performAll [DoInit, DoProbe (Some True), DoActivate (Some 1) (Some 1)] (constructed True))
   \<and> xrActive (performAll [DoInit, DoProbe (Some True), DoActivate (Some 1) (Some 1)] (constructed True))
   \<and> currentSession (performAll [DoInit, DoProbe (Some True), DoActivate (Some 1) (Some 1)] (constructed True)) \<noteq> None"
proof -
  have a: "attained (performAll [DoInit, DoProbe (Some True), DoActivate (Some 1) (Some 1)] (constructed True))"
    by (intro attained_performAll attained.intros)
  have x: "xrActive (performAll [DoInit, DoProbe (Some True), DoActivate (Some 1) (Some 1)] (constructed True))"
    unfolding constructed_def
    by (simp add: run_simps cong: andThen_cong let_weak_cong)
  from active_has_session [OF a x] a x show ?thesis by simp
qed

text \<open>
  The other half of C3 fails. The callback of the session request sets \<open>currentSession\<close>
  (line 72) and \<open>xrActive\<close> is only set by the callback of the reference space request
  (line 76), so between the two the session is there and the flag is false. And when the
  player loads new metadata during an active session, init sets \<open>xrActive\<close> to false
  (line 218) and nothing clears \<open>currentSession\<close>.
\<close>

theorem session_without_active_counterexample:
  "attained (performAll [DoInit, DoProbe (Some True), DoActivate (Some 1) (Some 1), DoInit] (constructed True))
   \<and> currentSession (performAll [DoInit, DoProbe (Some True), DoActivate (Some 1) (Some 1), DoInit] (constructed True)) = Some 1
   \<and> \<not> xrActive (performAll [DoInit, DoProbe (Some True), DoActivate (Some 1) (Some 1), DoInit] (constructed True))
   \<and> currentSession (run [WindowEvent ''vrdisplayactivate'', SessionSettled (Some 1)] supportedExample) = Some 1
   \<and> \<not> xrActive (run [WindowEvent ''vrdisplayactivate'', SessionSettled (Some 1)] supportedExample)"
proof -
  have a: "attained (performAll [DoInit, DoProbe (Some True), DoActivate (Some 1) (Some 1), DoInit] (constructed True))"
    by (intro attained_performAll attained.intros)
  have b: "currentSession (performAll [DoInit, DoProbe (Some True), DoActivate (Some 1) (Some 1), DoInit] (constructed True)) = Some 1"
    "\<not> xrActive (performAll [DoInit, DoProbe (Some True), DoActivate (Some 1) (Some 1), DoInit] (constructed True))"
    unfolding constructed_def
    by (simp_all add: run_simps cong: andThen_cong let_weak_cong)
  have c: "currentSession (run [WindowEvent ''vrdisplayactivate'', SessionSettled (Some 1)] supportedExample) = Some 1"
    "\<not> xrActive (run [WindowEvent ''vrdisplayactivate'', SessionSettled (Some 1)] supportedExample)"
    unfolding supportedExample_eq
    by (simp_all add: run_simps cong: andThen_cong let_weak_cong)
  from a b c show ?thesis by simp
qed

text \<open>
  C4 asks that after a rejected session request the desktop controls are enabled and the
  rejection is logged. Evaluated on the code: the handler disables the controls and
  cancels the pending frame before it requests the session (lines 58 to 61), and the
  request has no callback for a rejection. After the rejection the session fields are as
  the claim says (\<open>xrActive\<close> false, \<open>currentSession\<close> null, no request waiting, none made
  again), but the controls stay disabled, no frame waits on any clock, the console has
  received nothing, and the rejection is unhandled.
\<close>

theorem rejected_request_freezes:
  "xrSupported supportedExample \<and> controls3d supportedExample = Some True
   \<and> pendingFrames supportedExample = [(PlayerClock, 1, Animate)]
   \<and> \<not> xrActive rejectedExample \<and> currentSession rejectedExample = None
   \<and> sessionRequests rejectedExample = 0
   \<and> controls3d rejectedExample = Some False
   \<and> pendingFrames rejectedExample = []
   \<and> logged (effects rejectedExample) = logged (effects supportedExample)
   \<and> uncaught rejectedExample = [UnhandledRejection]"
  by (simp add: rejectedExample_eq supportedExample_eq)

text \<open>
  C5. A deactivation whose \<^verbatim>\<open>end()\<close> is rejected with InvalidStateError, from any state
  the event loop can reach in which the handler is subscribed, the capability is there
  and a session \<open>k\<close> is held. The window fires \<^verbatim>\<open>vrdisplaydeactivate\<close>: the handler is the
  only listener called, it throws nothing, it cancels the frame whose handle the plugin
  holds on the clock in use, and it calls \<^verbatim>\<open>end()\<close> on the session \<open>k\<close>, which leaves one
  more promise waiting. That promise is rejected with InvalidStateError (\<^verbatim>\<open>end()\<close> on a
  session that has already ended returns a promise that is rejected already, so its
  callbacks run before the event loop takes up anything else): the event loop runs the
  continuation, which throws nothing. Afterwards \<open>xrActive\<close> is false, \<open>currentSession\<close> is
  null, the renderer holds no session, the controls are enabled, \<^verbatim>\<open>xrSessionDeactivated\<close>
  was triggered and a frame waits on the player's clock, its handle stored; the promise
  no longer waits. In all of it the console received nothing and no exception left the
  plugin.
\<close>

theorem already_ended_cleanup:
  assumes "reachable s" "subscribed s" "xrSupported s" "currentSession s = Some k"
  shows "\<exists>s1 s2 h.
     handleVrDisplayDeactivate s = Inr s1
     \<and> step (WindowEvent ''vrdisplaydeactivate'') s = s1
     \<and> effects s1 = effects s
          @ (case animationFrameId s of
               None \<Rightarrow> []
             | Some h' \<Rightarrow>
                 if h' \<noteq> 0
                 then [CancelFrame (if xrActive s then SessionClock k else PlayerClock) h']
                 else [])
          @ [EndSession k]
     \<and> pendingFrames s1 =
          (case animationFrameId s of
             None \<Rightarrow> pendingFrames s
           | Some h' \<Rightarrow>
               if h' \<noteq> 0
               then filter (\<lambda>(c', h'', _).
                      \<not> (c' = (if xrActive s then SessionClock k else PlayerClock) \<and> h'' = h'))
                      (pendingFrames s)
               else pendingFrames s)
     \<and> endRequests s1 = Suc (endRequests s)
     \<and> endSettled (Some ''InvalidStateError'') (s1\<lparr>endRequests := endRequests s\<rparr>) = Inr s2
     \<and> step (EndSettled (Some ''InvalidStateError'')) s1 = s2
     \<and> run [WindowEvent ''vrdisplaydeactivate'', EndSettled (Some ''InvalidStateError'')] s = s2
     \<and> endRequests s2 = endRequests s
     \<and> \<not> xrActive s2 \<and> currentSession s2 = None
     \<and> controls3d s2 = Some True \<and> rendererSession s2 = None
     \<and> effects s2 = effects s1 @ [SetSession None, Call ''controls3d.enable'',
          Trigger ''xrSessionDeactivated'', ScheduleFrame PlayerClock h Animate]
     \<and> pendingFrames s2 = pendingFrames s1 @ [(PlayerClock, h, Animate)]
     \<and> animationFrameId s2 = Some h
     \<and> logged (effects s2) = logged (effects s)
     \<and> uncaught s2 = uncaught s"
proof -
  from reachable_wired [OF assms(1)] assms(2)
  have eq: "controls3d s \<noteq> None" "renderer s" by (simp_all add: equipped_def)
  from reachable_own [OF assms(1)] assms(2)
  have d: "dispatch ''vrdisplaydeactivate'' (windowListeners s) s
      = absorb (handleVrDisplayDeactivate s)"
    by (intro dispatch_deactivate) (simp_all add: ownListeners_def subscribed_def)
  define cs where "cs = (case animationFrameId s of
       None \<Rightarrow> []
     | Some h' \<Rightarrow>
         if h' \<noteq> 0
         then [CancelFrame (if xrActive s then SessionClock k else PlayerClock) h']
         else [])"
  define pf where "pf = (case animationFrameId s of
       None \<Rightarrow> pendingFrames s
     | Some h' \<Rightarrow>
         if h' \<noteq> 0
         then filter (\<lambda>(c', h'', _).
                \<not> (c' = (if xrActive s then SessionClock k else PlayerClock) \<and> h'' = h'))
                (pendingFrames s)
         else pendingFrames s)"
  define c where "c = (case animationFrameId s of
       None \<Rightarrow> s
     | Some h' \<Rightarrow>
         if h' \<noteq> 0
         then unschedule (if xrActive s then SessionClock k else PlayerClock) h' s
         else s)"
  have cp: "cancelPending s = Inr c"
    unfolding c_def by (rule cancelPending_exact [OF assms(4)])
  have cf: "effects c = effects s @ cs" "pendingFrames c = pf"
    "controls3d c = controls3d s" "renderer c = renderer s" "currentSession c = Some k"
    "endRequests c = endRequests s" "uncaught c = uncaught s"
    using assms(4) by (simp_all add: c_def cs_def pf_def unschedule_def emit_def split: option.splits)
  from cf eq obtain b where b: "controls3d c = Some b" by auto
  from cf eq have r: "renderer c" by simp
  have lc: "logged cs = []"
    by (simp add: cs_def split: option.splits)
  define s1 where "s1 = emit (EndSession k) (c\<lparr>endRequests := Suc (endRequests c)\<rparr>)"
  have h: "handleVrDisplayDeactivate s = Inr s1"
    using assms(3) cp cf(5) by (simp add: handleVrDisplayDeactivate_def andThen_def s1_def)
  have w: "step (WindowEvent ''vrdisplaydeactivate'') s = s1"
    using d h by (simp add: step_def absorb_def)
  have s1f: "effects s1 = effects s @ cs @ [EndSession k]" "pendingFrames s1 = pf"
    "endRequests s1 = Suc (endRequests s)"
    using cf by (simp_all add: s1_def emit_def)
  define s1' where "s1' = s1\<lparr>endRequests := endRequests s\<rparr>"
  define s2 where "s2 = after (endSettled (Some ''InvalidStateError'') s1')"
  have e: "endSettled (Some ''InvalidStateError'') s1' = Inr s2"
    using b r by (simp add: s2_def endSettled_def endCaught_def endThen_def Let_def
        scheduleAnimate_def requestAnimationFrame_def andThen_def s1'_def s1_def plain_defs)
  have st: "step (EndSettled (Some ''InvalidStateError'')) s1 = s2"
    using e s1f(3) by (simp add: step_def absorb_def s1'_def)
  have rn: "run [WindowEvent ''vrdisplaydeactivate'', EndSettled (Some ''InvalidStateError'')] s = s2"
    using w st by simp
  have p: "endRequests s2 = endRequests s
     \<and> \<not> xrActive s2 \<and> currentSession s2 = None
     \<and> controls3d s2 = Some True \<and> rendererSession s2 = None
     \<and> effects s2 = effects s1 @ [SetSession None, Call ''controls3d.enable'',
          Trigger ''xrSessionDeactivated'', ScheduleFrame PlayerClock (nextHandle s1) Animate]
     \<and> pendingFrames s2 = pendingFrames s1 @ [(PlayerClock, nextHandle s1, Animate)]
     \<and> animationFrameId s2 = Some (nextHandle s1)
     \<and> logged (effects s2) = logged (effects s)
     \<and> uncaught s2 = uncaught s"
    using b r cf lc by (simp add: s2_def endSettled_def endCaught_def endThen_def Let_def
        scheduleAnimate_def requestAnimationFrame_def andThen_def s1'_def s1_def plain_defs
        logged_append)
  note facts = h w s1f [unfolded cs_def pf_def] e [unfolded s1'_def] st rn p
  show ?thesis
    apply (rule exI [of _ s1])
    apply (rule exI [of _ s2])
    apply (rule exI [of _ "nextHandle s1"])
    apply (simp only: facts simp_thms)
    apply (simp add: logged_append split: option.splits)
    done
qed

theorem already_ended_cleanup_witness:
  "reachable activeExample \<and> subscribed activeExample \<and> xrSupported activeExample
   \<and> currentSession activeExample = Some 1 \<and> xrActive activeExample
   \<and> \<not> threw (handleVrDisplayDeactivate activeExample)
   \<and> EndSession 1 \<in> set (effects (step (WindowEvent ''vrdisplaydeactivate'') activeExample))
   \<and> \<not> xrActive (run [WindowEvent ''vrdisplaydeactivate'',
          EndSettled (Some ''InvalidStateError'')] activeExample)
   \<and> currentSession (run [WindowEvent ''vrdisplaydeactivate'',
          EndSettled (Some ''InvalidStateError'')] activeExample) = None
   \<and> controls3d (run [WindowEvent ''vrdisplaydeactivate'',
          EndSettled (Some ''InvalidStateError'')] activeExample) = Some True
   \<and> uncaught (run [WindowEvent ''vrdisplaydeactivate'',
          EndSettled (Some ''InvalidStateError'')] activeExample) = []"
proof -
  have h: "subscribed activeExample" "xrSupported activeExample" "currentSession activeExample = Some 1"
    by (simp_all add: example_eqs subscribed_def)
  have x: "xrActive activeExample" "uncaught activeExample = []"
    by (simp_all add: example_eqs)
  from already_ended_cleanup [OF activeExample_reachable h]
  obtain s1 s2 where f: "handleVrDisplayDeactivate activeExample = Inr s1"
    "step (WindowEvent ''vrdisplaydeactivate'') activeExample = s1"
    "effects s1 = effects activeExample
          @ (case animationFrameId activeExample of
               None \<Rightarrow> []
             | Some h' \<Rightarrow>
                 if h' \<noteq> 0
                 then [CancelFrame (if xrActive activeExample then SessionClock 1 else PlayerClock) h']
                 else [])
          @ [EndSession 1]"
    "run [WindowEvent ''vrdisplaydeactivate'', EndSettled (Some ''InvalidStateError'')] activeExample = s2"
    "\<not> xrActive s2" "currentSession s2 = None" "controls3d s2 = Some True"
    "uncaught s2 = uncaught activeExample"
    by (elim exE conjE)
  from f(2,3) have "EndSession 1 \<in> set (effects (step (WindowEvent ''vrdisplaydeactivate'') activeExample))"
    by simp
  with f h x activeExample_reachable show ?thesis by (simp add: threw_def)
qed

text \<open>
  C7 asks that at most one frame is ever outstanding. Evaluated on the code for one
  deactivation of an active session (\<open>doubledExample\<close>): the continuation of \<^verbatim>\<open>end()\<close> runs
  twice, each run requests a frame on the player's clock, and neither cancels the other's.
  Two frames wait, and when both have been called back two frames wait again: two render
  loops run side by side.
\<close>

theorem duplicate_render_loops:
  "reachable doubledExample
   \<and> pendingFrames activeExample = [(SessionClock 1, 2, Animate)]
   \<and> pendingFrames doubledExample = [(PlayerClock, 3, Animate), (PlayerClock, 4, Animate)]
   \<and> pendingFrames (run [FrameDue PlayerClock 3 True, FrameDue PlayerClock 4 True] doubledExample)
       = [(PlayerClock, 5, Animate), (PlayerClock, 6, Animate)]
   \<and> uncaught doubledExample = []"
proof -
  have "reachable doubledExample"
    unfolding doubledExample_def by (intro reachable_run activeExample_reachable)
  moreover have "pendingFrames (run [FrameDue PlayerClock 3 True, FrameDue PlayerClock 4 True] doubledExample)
       = [(PlayerClock, 5, Animate), (PlayerClock, 6, Animate)]"
    unfolding doubledExample_eq example_eqs
    by (simp add: run_simps cong: andThen_cong let_weak_cong)
  ultimately show ?thesis by (simp add: doubledExample_eq example_eqs)
qed

text \<open>
  C8 asks that no exception leaves the plugin. Evaluated on the code: init throws a
  TypeError when \<^verbatim>\<open>window.navigator.xr\<close> is missing (line 251 calls a method of \<^verbatim>\<open>self\<close>,
  which is only assigned inside the branch of line 234), and the deactivate handler throws
  a TypeError when the signal arrives while the capability is there and no session is held
  (line 91 calls \<^verbatim>\<open>end()\<close> on \<^verbatim>\<open>null\<close>).
\<close>

theorem boundary_exceptions:
  "threw (init (constructed False))
   \<and> uncaught (run [PlayerEvent ''loadedmetadata''] (constructed False)) = [TypeError]
   \<and> xrSupported supportedExample \<and> currentSession supportedExample = None
   \<and> threw (handleVrDisplayDeactivate supportedExample)
   \<and> uncaught (run [WindowEvent ''vrdisplaydeactivate''] supportedExample) = [TypeError]"
proof -
  have "threw (init (constructed False))"
    "uncaught (run [PlayerEvent ''loadedmetadata''] (constructed False)) = [TypeError]"
    unfolding constructed_def
    by (simp_all add: run_simps threw_def cong: andThen_cong let_weak_cong)
  moreover have "threw (handleVrDisplayDeactivate supportedExample)"
    "uncaught (run [WindowEvent ''vrdisplaydeactivate''] supportedExample) = [TypeError]"
    unfolding supportedExample_eq
    by (simp_all add: run_simps threw_def cong: andThen_cong let_weak_cong)
  ultimately show ?thesis by (simp add: supportedExample_eq)
qed

section \<open>The lifecycle controller\<close>

subsection \<open>The calls init and reset make, in order\<close>

lemma appends_refl: "appends P s s"
  by (simp add: appends_def)

lemma appends_same: "effects s' = effects s \<Longrightarrow> appends P s s'"
  by (simp add: appends_def)

lemma appends_trans: "appends P s s' \<Longrightarrow> appends P s' s'' \<Longrightarrow> appends P s s''"
  by (auto simp: appends_def)

lemma appends_emit: "P e \<Longrightarrow> appends P s s' \<Longrightarrow> appends P s (emit e s')"
  by (auto simp: appends_def emit_def)

lemma appends_member: "appends P s s' \<Longrightarrow> \<not> P e \<Longrightarrow> e \<in> set (effects s') \<Longrightarrow> e \<in> set (effects s)"
  by (auto simp: appends_def list_all_iff)

lemma resetControls_appends:
  "(\<And>m. P (Call m)) \<Longrightarrow> appends P s (resetControls s)"
  by (simp add: resetControls_def Let_def appends_def emit_def split: option.splits)

lemma resetChildren_appends:
  "(\<And>m. P (Call m)) \<Longrightarrow> appends P s (resetChildren s)"
  by (simp add: resetChildren_def Let_def appends_def plain_defs)

lemma resetVideoStyle_appends:
  "(\<And>m. P (Call m)) \<Longrightarrow> appends P s (resetVideoStyle s)"
  by (simp add: appends_def plain_defs)

lemma resetListeners_effects:
  "effects (resetListeners s) = effects s @
     [RemoveListener Window ''resize'' HandleResize,
      RemoveListener Window ''vrdisplaypresentchange'' HandleResize,
      RemoveListener Window ''vrdisplayactivate'' HandleVrDisplayActivate,
      RemoveListener Window ''vrdisplaydeactivate'' HandleVrDisplayDeactivate]"
  by (simp add: plain_defs)

lemma resetCanvas_appends:
  "(\<And>m. P (Call m)) \<Longrightarrow> resetCanvas s = Inr s' \<Longrightarrow> appends P s s'"
  by (auto simp: resetCanvas_def appends_def plain_defs split: option.splits if_splits)

lemma cancelPending_appends:
  "(\<And>c h. P (CancelFrame c h)) \<Longrightarrow> cancelPending s = Inr s' \<Longrightarrow> appends P s s'"
  by (auto simp: cancelPending_def cancelAnimationFrame_def appends_def plain_defs
      split: option.splits if_splits)

lemma reset_Inr_parts:
  assumes "initialized s" "reset s = Inr s'"
  obtains y z where
    "resetCanvas (resetVideoStyle (resetChildren (resetListeners (resetControls s)))) = Inr y"
    "cancelPending y = Inr z" "s' = setInitialized False z"
proof -
  define x where "x = resetVideoStyle (resetChildren (resetListeners (resetControls s)))"
  from assms have r: "andThen (resetCanvas x)
      (\<lambda>s1. andThen (cancelPending s1) (\<lambda>s2. Inr (setInitialized False s2))) = Inr s'"
    by (simp add: reset_def x_def)
  then obtain y where y: "resetCanvas x = Inr y"
    by (cases "resetCanvas x") (simp_all add: andThen_def)
  with r obtain z where z: "cancelPending y = Inr z"
    by (cases "cancelPending y") (simp_all add: andThen_def)
  with r y have "s' = setInitialized False z" by (simp add: andThen_def)
  with y z that show ?thesis by (simp add: x_def)
qed

lemma reset_effects:
  assumes "initialized s" "reset s = Inr s'"
  shows "\<exists>mid. effects s' = effects s @ mid @ [SetInitialized False]
     \<and> (\<forall>b. SetInitialized b \<notin> set mid)
     \<and> RemoveListener Window ''resize'' HandleResize \<in> set mid
     \<and> RemoveListener Window ''vrdisplaypresentchange'' HandleResize \<in> set mid
     \<and> RemoveListener Window ''vrdisplayactivate'' HandleVrDisplayActivate \<in> set mid
     \<and> RemoveListener Window ''vrdisplaydeactivate'' HandleVrDisplayDeactivate \<in> set mid
     \<and> \<not> initialized s'"
proof -
  let ?Q = "\<lambda>e. \<forall>b. e \<noteq> SetInitialized b"
  from assms obtain y z where p:
    "resetCanvas (resetVideoStyle (resetChildren (resetListeners (resetControls s)))) = Inr y"
    "cancelPending y = Inr z" "s' = setInitialized False z"
    by (rule reset_Inr_parts)
  have "appends ?Q s (resetControls s)" by (rule resetControls_appends) simp
  then obtain a where a: "effects (resetControls s) = effects s @ a" "list_all ?Q a"
    by (auto simp: appends_def)
  have "appends ?Q (resetListeners (resetControls s)) z"
    by (intro appends_trans [OF _ cancelPending_appends [OF _ p(2)]]
        appends_trans [OF _ resetCanvas_appends [OF _ p(1)]]
        appends_trans [OF resetChildren_appends resetVideoStyle_appends]) simp_all
  then obtain b where b: "effects z = effects (resetListeners (resetControls s)) @ b" "list_all ?Q b"
    by (auto simp: appends_def)
  let ?mid = "a @ [RemoveListener Window ''resize'' HandleResize,
      RemoveListener Window ''vrdisplaypresentchange'' HandleResize,
      RemoveListener Window ''vrdisplayactivate'' HandleVrDisplayActivate,
      RemoveListener Window ''vrdisplaydeactivate'' HandleVrDisplayDeactivate] @ b"
  have "effects s' = effects s @ ?mid @ [SetInitialized False]"
    using p(3) a(1) b(1) by (simp add: setInitialized_def emit_def resetListeners_effects)
  moreover have "\<forall>b. SetInitialized b \<notin> set ?mid"
    using a(2) b(2) by (auto simp: list_all_iff)
  moreover have "\<not> initialized s'"
    by (simp add: p(3) setInitialized_def emit_def)
  ultimately show ?thesis
    by (intro exI [of _ ?mid]) simp
qed

lemma reset_appends:
  assumes "\<And>m. P (Call m)" "\<And>ty fn. P (RemoveListener Window ty fn)"
    "\<And>c h. P (CancelFrame c h)" "P (SetInitialized False)" "reset s = Inr s'"
  shows "appends P s s'"
proof (cases "initialized s")
  case False
  with assms(5) show ?thesis by (simp add: reset_def appends_refl)
next
  case True
  from True assms(5) obtain y z where p:
    "resetCanvas (resetVideoStyle (resetChildren (resetListeners (resetControls s)))) = Inr y"
    "cancelPending y = Inr z" "s' = setInitialized False z"
    by (rule reset_Inr_parts)
  have l: "appends P (resetControls s) (resetListeners (resetControls s))"
    using assms(2) by (simp add: appends_def resetListeners_effects)
  have "appends P s z"
    by (intro appends_trans [OF _ cancelPending_appends [OF _ p(2)]]
        appends_trans [OF _ resetCanvas_appends [OF _ p(1)]]
        appends_trans [OF _ resetVideoStyle_appends]
        appends_trans [OF _ resetChildren_appends]
        appends_trans [OF resetControls_appends l]) (simp_all add: assms)
  with p(3) assms(4) show ?thesis
    by (auto simp: setInitialized_def emit_def appends_def)
qed


lemma initResources_effects:
  "effects (initResources s) = effects s @
     [Call ''player.removeChild BigPlayButton'', Call ''player.addChild BigVrPlayButton'',
      Call ''new WebGLRenderer'', Call ''insertBefore canvas'', Call ''videoEl.style hide'']
     @ (case controls3d s of None \<Rightarrow> [Call ''new OrbitOrientationControls''] | Some _ \<Rightarrow> [])"
  by (simp add: initResources_def Let_def plain_defs split: option.splits)

lemma initWire_effects:
  "effects (initWire s) = effects s @
     [AddListener Player ''fullscreenchange'' HandleResize,
      AddListener Window ''vrdisplaypresentchange'' HandleResize,
      AddListener Window ''resize'' HandleResize,
      AddListener Window ''vrdisplayactivate'' HandleVrDisplayActivate,
      AddListener Window ''vrdisplaydeactivate'' HandleVrDisplayDeactivate]"
  "initialized (initWire s) = initialized s"
  by (simp_all add: initWire_def addEventListener_def plain_defs)

lemma init_Inr_parts:
  assumes "init s = Inr s'"
  obtains s0 s2 where "reset s = Inr s0" "navigatorXr s0"
    "scheduleAnimate (completeInitialization (initProbe (initResources s0))) = Inr s2"
    "s' = initWire s2"
proof -
  from assms obtain s0 where s0: "reset s = Inr s0"
    by (cases "reset s") (simp_all add: init_def andThen_def)
  from assms s0 have i: "(if \<not> navigatorXr s0 then Inl (TypeError, initProbe (initResources s0))
      else andThen (scheduleAnimate (completeInitialization (initProbe (initResources s0))))
        (\<lambda>s2. Inr (initWire s2))) = Inr s'"
    by (simp add: init_def andThen_Inr Let_def)
  then have n: "navigatorXr s0" by (cases "navigatorXr s0") simp_all
  with i obtain s2 where
    s2: "scheduleAnimate (completeInitialization (initProbe (initResources s0))) = Inr s2"
    by (cases "scheduleAnimate (completeInitialization (initProbe (initResources s0)))")
      (simp_all add: andThen_def)
  with i n have "s' = initWire s2" by (simp add: andThen_def)
  with s0 s2 n that show ?thesis by simp
qed

lemma init_effects:
  assumes "init s = Inr s'"
  shows "\<exists>mid h. effects s' = effects s @ mid @
       [SetInitialized True, Trigger ''initialized'', ScheduleFrame PlayerClock h Animate,
        AddListener Player ''fullscreenchange'' HandleResize,
        AddListener Window ''vrdisplaypresentchange'' HandleResize,
        AddListener Window ''resize'' HandleResize,
        AddListener Window ''vrdisplayactivate'' HandleVrDisplayActivate,
        AddListener Window ''vrdisplaydeactivate'' HandleVrDisplayDeactivate]
     \<and> SetInitialized True \<notin> set mid
     \<and> Call ''new WebGLRenderer'' \<in> set mid \<and> IsSessionSupported \<in> set mid
     \<and> initialized s'"
proof -
  from assms obtain s0 s2 where p: "reset s = Inr s0" "navigatorXr s0"
    "scheduleAnimate (completeInitialization (initProbe (initResources s0))) = Inr s2"
    "s' = initWire s2"
    by (rule init_Inr_parts)
  have "appends (\<lambda>e. e \<noteq> SetInitialized True) s s0"
    by (rule reset_appends [OF _ _ _ _ p(1)]) simp_all
  then obtain a where a: "effects s0 = effects s @ a" "SetInitialized True \<notin> set a"
    by (auto simp: appends_def list_all_iff)
  define c where "c = completeInitialization (initProbe (initResources s0))"
  let ?b = "[Call ''player.removeChild BigPlayButton'', Call ''player.addChild BigVrPlayButton'',
      Call ''new WebGLRenderer'', Call ''insertBefore canvas'', Call ''videoEl.style hide'']
     @ (case controls3d s0 of None \<Rightarrow> [Call ''new OrbitOrientationControls''] | Some _ \<Rightarrow> [])
     @ [Call ''renderer.xr.enabled = true'', IsSessionSupported]"
  have pr: "effects (initProbe (initResources s0)) =
      effects (initResources s0) @ [Call ''renderer.xr.enabled = true'', IsSessionSupported]"
    using p(2) by (simp add: initProbe_def emit_def)
  have ce: "effects c = effects (initProbe (initResources s0)) @
      [SetInitialized True, Trigger ''initialized'']"
    by (simp add: c_def completeInitialization_def trigger_def setInitialized_def emit_def)
  have c1: "effects c = effects s0 @ ?b @ [SetInitialized True, Trigger ''initialized'']"
    by (simp only: ce pr initResources_effects append_assoc)
  have "fst (lifecycle c) = False"
    by (simp add: c_def)
  then have c2: "\<not> xrActive c"
    by (simp add: lifecycle_def)
  have c3: "initialized c"
    by (simp add: c_def completeInitialization_def trigger_def setInitialized_def emit_def)
  from p(3) c2
  have s2: "s2 = (snd (schedule PlayerClock Animate c))\<lparr>animationFrameId := Some (nextHandle c)\<rparr>"
    by (simp add: c_def [symmetric] scheduleAnimate_def requestAnimationFrame_def andThen_def
        schedule_def)
  have s2e: "effects s2 = effects c @ [ScheduleFrame PlayerClock (nextHandle c) Animate]"
    "initialized s2 = initialized c"
    by (simp_all add: s2 schedule_def emit_def)
  have e: "effects s' = effects s @ (a @ ?b) @
       [SetInitialized True, Trigger ''initialized'', ScheduleFrame PlayerClock (nextHandle c) Animate,
        AddListener Player ''fullscreenchange'' HandleResize,
        AddListener Window ''vrdisplaypresentchange'' HandleResize,
        AddListener Window ''resize'' HandleResize,
        AddListener Window ''vrdisplayactivate'' HandleVrDisplayActivate,
        AddListener Window ''vrdisplaydeactivate'' HandleVrDisplayDeactivate]"
    by (simp only: p(4) initWire_effects s2e c1 a(1) append_assoc append_Cons append_Nil)
  have i: "initialized s'"
    by (simp only: p(4) initWire_effects s2e c3)
  have m1: "SetInitialized True \<notin> set (a @ ?b)"
    using a(2) by (cases "controls3d s0") simp_all
  have m2: "Call ''new WebGLRenderer'' \<in> set (a @ ?b)"
    by simp
  have m3: "IsSessionSupported \<in> set (a @ ?b)"
    by simp
  show ?thesis
    apply (intro exI [of _ "a @ ?b"] exI [of _ "nextHandle c"] conjI)
        apply (rule e)
       apply (rule m1)
      apply (rule m2)
     apply (rule m3)
    apply (rule i)
    done
qed

lemma returned_after: "\<not> threw r \<Longrightarrow> r = Inr (after r)"
  by (cases r) (auto simp: threw_def after_def)

text \<open>
  C9, as the code has it. The claim is that \<open>initialized\<close> is set to true as the last step
  of init and to false as the first step of reset. In the code, every init that returns
  sets the flag once, after the resources are allocated and the capability probe is
  started, and what follows the write is exactly: the trigger of \<^verbatim>\<open>initialized\<close>, the request
  of the first frame on the player's clock, and the five subscriptions. Every reset of an
  initialized plugin that returns writes the flag last, after the teardown, the removal of
  the four window subscriptions included.
\<close>

theorem flag_write_order:
  "(init s = Inr s' \<longrightarrow>
      (\<exists>mid h. effects s' = effects s @ mid @
         [SetInitialized True, Trigger ''initialized'', ScheduleFrame PlayerClock h Animate,
          AddListener Player ''fullscreenchange'' HandleResize,
          AddListener Window ''vrdisplaypresentchange'' HandleResize,
          AddListener Window ''resize'' HandleResize,
          AddListener Window ''vrdisplayactivate'' HandleVrDisplayActivate,
          AddListener Window ''vrdisplaydeactivate'' HandleVrDisplayDeactivate]
       \<and> SetInitialized True \<notin> set mid
       \<and> Call ''new WebGLRenderer'' \<in> set mid \<and> IsSessionSupported \<in> set mid
       \<and> initialized s'))
   \<and> (initialized t \<longrightarrow> reset t = Inr t' \<longrightarrow>
      (\<exists>mid. effects t' = effects t @ mid @ [SetInitialized False]
       \<and> (\<forall>b. SetInitialized b \<notin> set mid)
       \<and> RemoveListener Window ''resize'' HandleResize \<in> set mid
       \<and> RemoveListener Window ''vrdisplaypresentchange'' HandleResize \<in> set mid
       \<and> RemoveListener Window ''vrdisplayactivate'' HandleVrDisplayActivate \<in> set mid
       \<and> RemoveListener Window ''vrdisplaydeactivate'' HandleVrDisplayDeactivate \<in> set mid
       \<and> \<not> initialized t'))"
proof (intro conjI impI)
  assume "init s = Inr s'"
  then show "\<exists>mid h. effects s' = effects s @ mid @
         [SetInitialized True, Trigger ''initialized'', ScheduleFrame PlayerClock h Animate,
          AddListener Player ''fullscreenchange'' HandleResize,
          AddListener Window ''vrdisplaypresentchange'' HandleResize,
          AddListener Window ''resize'' HandleResize,
          AddListener Window ''vrdisplayactivate'' HandleVrDisplayActivate,
          AddListener Window ''vrdisplaydeactivate'' HandleVrDisplayDeactivate]
       \<and> SetInitialized True \<notin> set mid
       \<and> Call ''new WebGLRenderer'' \<in> set mid \<and> IsSessionSupported \<in> set mid
       \<and> initialized s'"
    by (rule init_effects)
next
  assume a: "initialized t" "reset t = Inr t'"
  then show "\<exists>mid. effects t' = effects t @ mid @ [SetInitialized False]
       \<and> (\<forall>b. SetInitialized b \<notin> set mid)
       \<and> RemoveListener Window ''resize'' HandleResize \<in> set mid
       \<and> RemoveListener Window ''vrdisplaypresentchange'' HandleResize \<in> set mid
       \<and> RemoveListener Window ''vrdisplayactivate'' HandleVrDisplayActivate \<in> set mid
       \<and> RemoveListener Window ''vrdisplaydeactivate'' HandleVrDisplayDeactivate \<in> set mid
       \<and> \<not> initialized t'"
    by (rule reset_effects)
qed

theorem flag_write_order_witness:
  "init (constructed True) = Inr (after (init (constructed True)))
   \<and> initialized (after (init (constructed True)))
   \<and> initialized supportedExample
   \<and> reset supportedExample = Inr (after (reset supportedExample))
   \<and> \<not> initialized (after (reset supportedExample))"
proof -
  have "\<not> threw (init (constructed True))"
    unfolding constructed_def
    by (simp add: run_simps threw_def cong: andThen_cong let_weak_cong)
  then have i: "init (constructed True) = Inr (after (init (constructed True)))"
    by (rule returned_after)
  have "\<not> threw (reset supportedExample)"
    unfolding supportedExample_eq
    by (simp add: run_simps threw_def cong: andThen_cong let_weak_cong)
  then have r: "reset supportedExample = Inr (after (reset supportedExample))"
    by (rule returned_after)
  have h: "initialized supportedExample"
    by (simp add: supportedExample_eq)
  note t = flag_write_order [of "constructed True" "after (init (constructed True))"
      supportedExample "after (reset supportedExample)"]
  from t [THEN conjunct1, rule_format, OF i]
  have a: "initialized (after (init (constructed True)))"
    by (elim exE conjE)
  from t [THEN conjunct2, rule_format, OF h r]
  have b: "\<not> initialized (after (reset supportedExample))"
    by (elim exE conjE)
  from i a h r b show ?thesis by (intro conjI)
qed

text \<open>
  C9 as stated fails on the first init of a plugin and on a reset after it: the flag is
  written before the frame is scheduled and the listeners are added, and reset writes it
  after everything else.
\<close>

theorem flag_write_order_counterexample:
  "effects (after (init (constructed True))) =
     [AddListener Player ''loadedmetadata'' Init,
      Call ''player.removeChild BigPlayButton'', Call ''player.addChild BigVrPlayButton'',
      Call ''new WebGLRenderer'', Call ''insertBefore canvas'', Call ''videoEl.style hide'',
      Call ''new OrbitOrientationControls'', Call ''renderer.xr.enabled = true'',
      IsSessionSupported, SetInitialized True, Trigger ''initialized'',
      ScheduleFrame PlayerClock 1 Animate,
      AddListener Player ''fullscreenchange'' HandleResize,
      AddListener Window ''vrdisplaypresentchange'' HandleResize,
      AddListener Window ''resize'' HandleResize,
      AddListener Window ''vrdisplayactivate'' HandleVrDisplayActivate,
      AddListener Window ''vrdisplaydeactivate'' HandleVrDisplayDeactivate]
   \<and> initialized supportedExample
   \<and> effects (after (reset supportedExample)) =
     effects supportedExample @
     [Call ''controls3d.dispose'', Call ''canvasPlayerControls.dispose'',
      RemoveListener Window ''resize'' HandleResize,
      RemoveListener Window ''vrdisplaypresentchange'' HandleResize,
      RemoveListener Window ''vrdisplayactivate'' HandleVrDisplayActivate,
      RemoveListener Window ''vrdisplaydeactivate'' HandleVrDisplayDeactivate,
      Call ''player.addChild BigPlayButton'', Call ''player.removeChild BigVrPlayButton'',
      Call ''videoEl.style reset'', Call ''parentNode.removeChild canvas'',
      CancelFrame PlayerClock 1, SetInitialized False]"
proof -
  have a: "effects (after (init (constructed True))) =
     [AddListener Player ''loadedmetadata'' Init,
      Call ''player.removeChild BigPlayButton'', Call ''player.addChild BigVrPlayButton'',
      Call ''new WebGLRenderer'', Call ''insertBefore canvas'', Call ''videoEl.style hide'',
      Call ''new OrbitOrientationControls'', Call ''renderer.xr.enabled = true'',
      IsSessionSupported, SetInitialized True, Trigger ''initialized'',
      ScheduleFrame PlayerClock 1 Animate,
      AddListener Player ''fullscreenchange'' HandleResize,
      AddListener Window ''vrdisplaypresentchange'' HandleResize,
      AddListener Window ''resize'' HandleResize,
      AddListener Window ''vrdisplayactivate'' HandleVrDisplayActivate,
      AddListener Window ''vrdisplaydeactivate'' HandleVrDisplayDeactivate]"
    unfolding constructed_def
    by (simp add: run_simps cong: andThen_cong let_weak_cong)
  have b: "effects (after (reset supportedExample)) =
     effects supportedExample @
     [Call ''controls3d.dispose'', Call ''canvasPlayerControls.dispose'',
      RemoveListener Window ''resize'' HandleResize,
      RemoveListener Window ''vrdisplaypresentchange'' HandleResize,
      RemoveListener Window ''vrdisplayactivate'' HandleVrDisplayActivate,
      RemoveListener Window ''vrdisplaydeactivate'' HandleVrDisplayDeactivate,
      Call ''player.addChild BigPlayButton'', Call ''player.removeChild BigVrPlayButton'',
      Call ''videoEl.style reset'', Call ''parentNode.removeChild canvas'',
      CancelFrame PlayerClock 1, SetInitialized False]"
    unfolding supportedExample_eq
    by (simp add: run_simps cong: andThen_cong let_weak_cong)
  have c: "initialized supportedExample" by (simp add: supportedExample_eq)
  from a c b show ?thesis by (intro conjI)
qed

text \<open>
  C6, as the code has it. The claim is that reset from the active state ends the session,
  cancels the frame, removes every subscription init registered and clears the flag. In
  the code, a reset of an initialized plugin with an active session, whose canvas (if it
  has one) is in the document, returns; afterwards the flag is false, the frame whose
  handle the plugin holds no longer waits on the session's clock, and the four window
  subscriptions of init are gone. The session is not ended: \<open>xrActive\<close>, \<open>currentSession\<close>
  and the session installed on the renderer are as before, no promise of \<^verbatim>\<open>end()\<close> is
  added, and reset calls \<^verbatim>\<open>end()\<close> on no session.
\<close>

theorem reset_while_active:
  assumes "initialized s" "xrActive s" "currentSession s = Some k"
    "renderedCanvas s \<noteq> Some False"
  shows "\<exists>s'. reset s = Inr s' \<and> \<not> initialized s'
     \<and> (\<forall>h fn. animationFrameId s = Some h \<longrightarrow> h \<noteq> 0 \<longrightarrow>
           (SessionClock k, h, fn) \<notin> set (pendingFrames s'))
     \<and> (''resize'', HandleResize) \<notin> set (windowListeners s')
     \<and> (''vrdisplaypresentchange'', HandleResize) \<notin> set (windowListeners s')
     \<and> (''vrdisplayactivate'', HandleVrDisplayActivate) \<notin> set (windowListeners s')
     \<and> (''vrdisplaydeactivate'', HandleVrDisplayDeactivate) \<notin> set (windowListeners s')
     \<and> xrActive s' \<and> currentSession s' = Some k
     \<and> rendererSession s' = rendererSession s \<and> endRequests s' = endRequests s
     \<and> (\<forall>j. EndSession j \<in> set (effects s') \<longrightarrow> EndSession j \<in> set (effects s))"
proof -
  define x where "x = resetVideoStyle (resetChildren (resetListeners (resetControls s)))"
  have xl: "lifecycle x = lifecycle s" by (simp add: x_def)
  note xf = reset_prefix_fields [of s, folded x_def]
  from assms(4) xf(1) obtain y where y: "resetCanvas x = Inr y"
    using resetCanvas_returns [of x] by auto
  note yf = resetCanvas_fields [OF y] resetCanvas_Inr [OF y]
  from yf xl assms(3) have "currentSession y \<noteq> None" by (simp add: lifecycle_def)
  then obtain z where z: "cancelPending y = Inr z"
    using cancelPending_returns [of y] by auto
  note zf = cancelPending_fields [OF z, of k] cancelPending_Inr [OF z]
  have r: "reset s = Inr (setInitialized False z)"
    using assms(1) y z by (simp add: reset_def andThen_def x_def)
  have l: "lifecycle z = lifecycle s" using zf yf xl by simp
  have ya: "animationFrameId y = animationFrameId s" "xrActive y" "currentSession y = Some k"
    using yf xf xl assms by (simp_all add: lifecycle_def)
  have w: "windowListeners z =
     removeAll (''vrdisplaydeactivate'', HandleVrDisplayDeactivate)
       (removeAll (''vrdisplayactivate'', HandleVrDisplayActivate)
         (removeAll (''vrdisplaypresentchange'', HandleResize)
           (removeAll (''resize'', HandleResize) (windowListeners s))))"
    using zf yf xf by simp
  have rs: "rendererSession z = rendererSession s" using zf yf xf by simp
  have pf: "\<forall>h fn. animationFrameId s = Some h \<longrightarrow> h \<noteq> 0 \<longrightarrow>
           (SessionClock k, h, fn) \<notin> set (pendingFrames z)"
    using zf(1) ya by simp
  have "appends (\<lambda>e. \<forall>j. e \<noteq> EndSession j) s (setInitialized False z)"
    by (rule reset_appends [OF _ _ _ _ r]) simp_all
  then have en: "\<forall>j. EndSession j \<in> set (effects (setInitialized False z)) \<longrightarrow>
      EndSession j \<in> set (effects s)"
    by (auto simp: appends_def list_all_iff)
  have f: "\<not> initialized (setInitialized False z)"
    "pendingFrames (setInitialized False z) = pendingFrames z"
    "windowListeners (setInitialized False z) = windowListeners z"
    "lifecycle (setInitialized False z) = lifecycle z"
    "rendererSession (setInitialized False z) = rendererSession z"
    by (simp_all add: setInitialized_def emit_def lifecycle_def)
  have g: "xrActive (setInitialized False z)" "currentSession (setInitialized False z) = Some k"
    "endRequests (setInitialized False z) = endRequests s"
    using f(4) l assms by (simp_all add: lifecycle_fields)
  show ?thesis
    using r f(1) pf w rs en g
    by (intro exI [of _ "setInitialized False z"]) (simp add: f(2,3,5))
qed

theorem reset_while_active_witness:
  "initialized activeExample \<and> xrActive activeExample \<and> currentSession activeExample = Some 1
   \<and> renderedCanvas activeExample \<noteq> Some False
   \<and> animationFrameId activeExample = Some 2
   \<and> \<not> threw (reset activeExample)
   \<and> \<not> initialized (after (reset activeExample))
   \<and> (SessionClock 1, 2, Animate) \<notin> set (pendingFrames (after (reset activeExample)))
   \<and> (''vrdisplaydeactivate'', HandleVrDisplayDeactivate)
        \<notin> set (windowListeners (after (reset activeExample)))"
proof -
  have h: "initialized activeExample" "xrActive activeExample" "currentSession activeExample = Some 1"
    "renderedCanvas activeExample \<noteq> Some False" "animationFrameId activeExample = Some 2"
    by (simp_all add: example_eqs)
  from reset_while_active [OF h(1-4)]
  obtain s' where s': "reset activeExample = Inr s'" "\<not> initialized s'"
    "\<forall>h fn. animationFrameId activeExample = Some h \<longrightarrow> h \<noteq> 0 \<longrightarrow>
           (SessionClock 1, h, fn) \<notin> set (pendingFrames s')"
    "(''vrdisplaydeactivate'', HandleVrDisplayDeactivate) \<notin> set (windowListeners s')"
    by (elim exE conjE)
  from s'(3) h(5) have "(SessionClock 1, 2, Animate) \<notin> set (pendingFrames s')" by simp
  with s' h show ?thesis by (simp add: threw_def)
qed

text \<open>
  C6 as stated fails on a reset of the active state of the example: \<^verbatim>\<open>end()\<close> is not called
  on session \<open>1\<close>, which stays in \<open>currentSession\<close> and on the renderer, and the player's
  \<^verbatim>\<open>fullscreenchange\<close> subscription made by init (line 255) is still there.
\<close>

theorem reset_keeps_session_counterexample:
  "initialized activeExample \<and> xrActive activeExample \<and> currentSession activeExample = Some 1
   \<and> \<not> threw (reset activeExample)
   \<and> EndSession 1 \<notin> set (effects (after (reset activeExample)))
   \<and> currentSession (after (reset activeExample)) = Some 1
   \<and> rendererSession (after (reset activeExample)) = Some 1
   \<and> (''fullscreenchange'', HandleResize) \<in> set (playerListeners (after (reset activeExample)))"
proof -
  have "after (reset activeExample) =
     activeExample
       \<lparr>initialized := False, controls3d := None, canvasPlayerControls := False,
        renderedCanvas := Some False, videoHidden := False,
        playerChildren := [''BigPlayButton''], windowListeners := [], pendingFrames := [],
        effects := effects activeExample @
          [Call ''controls3d.dispose'', Call ''canvasPlayerControls.dispose'',
           RemoveListener Window ''resize'' HandleResize,
           RemoveListener Window ''vrdisplaypresentchange'' HandleResize,
           RemoveListener Window ''vrdisplayactivate'' HandleVrDisplayActivate,
           RemoveListener Window ''vrdisplaydeactivate'' HandleVrDisplayDeactivate,
           Call ''player.addChild BigPlayButton'', Call ''player.removeChild BigVrPlayButton'',
           Call ''videoEl.style reset'', Call ''parentNode.removeChild canvas'',
           CancelFrame (SessionClock 1) 2, SetInitialized False]\<rparr>"
    "\<not> threw (reset activeExample)"
    unfolding example_eqs
    by (simp_all add: run_simps threw_def cong: andThen_cong let_weak_cong)
  then show ?thesis by (simp add: example_eqs)
qed

end
